theory Spec2Isabelle
  imports Main "HOL-Library.Word"
begin

unbundle bit_operations_syntax

section \<open>Result codes, identifiers and faults\<close>

text \<open>
  \<^verbatim>\<open>enum class SafeResult\<close>: the five result codes of a safe call and their 32-bit values.
\<close>

datatype SafeResult = S_OK | E_NOTIMPL | E_NOINTERFACE | E_POINTER | E_FAIL

fun SafeResult_value :: "SafeResult \<Rightarrow> 32 word" where
  "SafeResult_value S_OK = 0x00000000"
| "SafeResult_value E_NOTIMPL = 0x80004001"
| "SafeResult_value E_NOINTERFACE = 0x80004002"
| "SafeResult_value E_POINTER = 0x80004003"
| "SafeResult_value E_FAIL = 0x80004005"

text \<open>
  \<^verbatim>\<open>struct _GUID\<close>: \<^verbatim>\<open>unsigned int\<close>, two \<^verbatim>\<open>unsigned short\<close> and
  \<^verbatim>\<open>unsigned char[8]\<close>, 16 bytes without padding. \<^verbatim>\<open>operator==\<close> is a
  \<^verbatim>\<open>memcmp\<close> over these 16 bytes, which holds exactly when all four fields agree.
\<close>

record GUID =
  Data1 :: "32 word"
  Data2 :: "16 word"
  Data3 :: "16 word"
  Data4 :: "8 word list"

definition guid_eq :: "GUID \<Rightarrow> GUID \<Rightarrow> bool" where
  "guid_eq a b \<longleftrightarrow>
     Data1 a = Data1 b \<and> Data2 a = Data2 b \<and> Data3 a = Data3 b \<and> Data4 a = Data4 b"

text \<open>
  What C++ leaves undefined, and what \<^verbatim>\<open>assert\<close> aborts on, is a fault of the model:
  a read behind the terminator of the text, a read outside the table \<^verbatim>\<open>hex2bin\<close>,
  a failed assertion, an overflow of a signed \<^verbatim>\<open>int\<close> counter, a use of the object
  after \<^verbatim>\<open>delete this\<close>, and a lock of the mutex while it is held: the caller cannot
  enter.
\<close>

datatype fault =
  StringOverrun | TableOverrun | AssertionFailed | SignedOverflow | UseAfterDelete | MutexHeld

definition bindF :: "fault + 'a \<Rightarrow> ('a \<Rightarrow> fault + 'b) \<Rightarrow> fault + 'b" where
  "bindF m f = (case m of Inl e \<Rightarrow> Inl e | Inr x \<Rightarrow> f x)"

section \<open>The canonical-text parser \<^verbatim>\<open>string_to_guid\<close>\<close>

text \<open>The table \<^verbatim>\<open>hex2bin\<close>: the ASCII table up to \<^verbatim>\<open>'f'\<close>, 103 entries.\<close>

definition hex2bin :: "8 word list" where
  "hex2bin =
    [99,99,99,99,99,99,99,99,99,99,99,99,99,99,99,99,
     99,99,99,99,99,99,99,99,99,99,99,99,99,99,99,99,
     99,99,99,99,99,99,99,99,99,99,99,99,99,99,99,99,
      0, 1, 2, 3, 4, 5, 6, 7, 8, 9,99,99,99,99,99,99,
     99,10,11,12,13,14,15,99,99,99,99,99,99,99,99,99,
     99,99,99,99,99,99,99,99,99,99,99,99,99,99,99,99,
     99,10,11,12,13,14,15]"

text \<open>
  \<^verbatim>\<open>hex2bin[k]\<close> for an \<^verbatim>\<open>int\<close> index: outside \<open>0 .. 102\<close> the read leaves the array.
\<close>

definition hex2bin_at :: "int \<Rightarrow> fault + 8 word" where
  "hex2bin_at k =
     (if 0 \<le> k \<and> k < int (length hex2bin) then Inr (hex2bin ! nat k) else Inl TableOverrun)"

text \<open>
  The argument \<^verbatim>\<open>char const* s\<close> is a text followed by its terminator: \<open>s\<close> is the text,
  \<^verbatim>\<open>s[length s]\<close> is the terminator, and anything behind it is outside the buffer.
\<close>

definition deref :: "string \<Rightarrow> nat \<Rightarrow> fault + char" where
  "deref s i =
     (if i < length s then Inr (s ! i)
      else if i = length s then Inr (CHR 0x00)
      else Inl StringOverrun)"

text \<open>
  A \<^verbatim>\<open>char\<close> promoted to \<^verbatim>\<open>int\<close>. Whether plain \<^verbatim>\<open>char\<close> is signed is the
  platform's choice (it is on x86), so it is the parameter \<open>sc\<close>: a signed \<^verbatim>\<open>char\<close>
  holding a byte above 127 is negative.
\<close>

definition char_to_int :: "bool \<Rightarrow> char \<Rightarrow> int" where
  "char_to_int sc c =
     (if sc \<and> 128 \<le> (of_char c :: nat) then int (of_char c) - 256 else int (of_char c))"

text \<open>
  One round of the \<^verbatim>\<open>switch (i)\<close> in the checking loop: \<open>Inr False\<close> is
  \<^verbatim>\<open>return false\<close> (\<^verbatim>\<open>std::nullopt\<close>), \<open>Inr True\<close> is \<^verbatim>\<open>break\<close>.
\<close>

definition check_char :: "bool \<Rightarrow> string \<Rightarrow> nat \<Rightarrow> fault + bool" where
  "check_char sc s i =
     (if i = 8 \<or> i = 13 \<or> i = 18 \<or> i = 23 then
        bindF (deref s i) (\<lambda>c. if c \<noteq> CHR ''-'' then Inr False else Inr True)
      else if i = 36 then
        bindF (deref s i) (\<lambda>c. if c \<noteq> CHR 0x00 then Inr False else Inr True)
      else
        bindF (deref s i) (\<lambda>c.
          if char_to_int sc c > char_to_int sc CHR ''f'' then Inr False
          else bindF (hex2bin_at (char_to_int sc c)) (\<lambda>v.
            if v > 15 then Inr False else Inr True)))"

text \<open>\<^verbatim>\<open>for (int i = 0; i < 37; ++i)\<close>, entered at \<open>i\<close>.\<close>

function check_loop :: "bool \<Rightarrow> string \<Rightarrow> nat \<Rightarrow> fault + bool" where
  "check_loop sc s i =
     (if i < 37 then
        bindF (check_char sc s i) (\<lambda>ok. if ok then check_loop sc s (i + 1) else Inr False)
      else Inr True)"
  by pat_completeness auto
termination
  by (relation "measure (\<lambda>(sc, s, i). 37 - i)") auto

declare check_loop.simps [simp del]

text \<open>\<^verbatim>\<open>hex2bin[s[k]]\<close>, promoted to \<^verbatim>\<open>int\<close> as an operand of \<^verbatim>\<open><<\<close> and \<^verbatim>\<open>|\<close>.\<close>

definition hexval :: "bool \<Rightarrow> string \<Rightarrow> nat \<Rightarrow> fault + 32 word" where
  "hexval sc s k =
     bindF (deref s k) (\<lambda>c. bindF (hex2bin_at (char_to_int sc c)) (\<lambda>v. Inr (ucast v)))"

text \<open>
  The assignments to the fields. The right-hand sides are \<^verbatim>\<open>int\<close> expressions
  (32 bits, two's complement); the assignment converts them to the field's unsigned type.
\<close>

definition decode_Data1 :: "bool \<Rightarrow> string \<Rightarrow> fault + 32 word" where
  "decode_Data1 sc s =
     bindF (hexval sc s 0) (\<lambda>h0. bindF (hexval sc s 1) (\<lambda>h1.
     bindF (hexval sc s 2) (\<lambda>h2. bindF (hexval sc s 3) (\<lambda>h3.
     bindF (hexval sc s 4) (\<lambda>h4. bindF (hexval sc s 5) (\<lambda>h5.
     bindF (hexval sc s 6) (\<lambda>h6. bindF (hexval sc s 7) (\<lambda>h7.
       Inr (push_bit 28 h0 OR push_bit 24 h1 OR push_bit 20 h2 OR push_bit 16 h3 OR
            push_bit 12 h4 OR push_bit 8 h5 OR push_bit 4 h6 OR h7)))))))))"

definition decode_short :: "bool \<Rightarrow> string \<Rightarrow> nat \<Rightarrow> fault + 16 word" where
  "decode_short sc s k =
     bindF (hexval sc s k) (\<lambda>h0. bindF (hexval sc s (k + 1)) (\<lambda>h1.
     bindF (hexval sc s (k + 2)) (\<lambda>h2. bindF (hexval sc s (k + 3)) (\<lambda>h3.
       Inr (ucast (push_bit 12 h0 OR push_bit 8 h1 OR push_bit 4 h2 OR h3))))))"

definition decode_byte :: "bool \<Rightarrow> string \<Rightarrow> nat \<Rightarrow> fault + 8 word" where
  "decode_byte sc s k =
     bindF (hexval sc s k) (\<lambda>h0. bindF (hexval sc s (k + 1)) (\<lambda>h1.
       Inr (ucast (push_bit 4 h0 OR h1))))"

text \<open>
  \<^verbatim>\<open>string_to_guid\<close> as \<^verbatim>\<open>std::optional<GUID> string_to_guid(char const* s)\<close>:
  \<open>Inr None\<close> is \<^verbatim>\<open>std::nullopt\<close>.
\<close>

definition string_to_guid :: "bool \<Rightarrow> string \<Rightarrow> fault + GUID option" where
  "string_to_guid sc s =
     bindF (check_loop sc s 0) (\<lambda>ok.
       if \<not> ok then Inr None
       else
         bindF (decode_Data1 sc s) (\<lambda>d1.
         bindF (decode_short sc s 9) (\<lambda>d2.
         bindF (decode_short sc s 14) (\<lambda>d3.
         bindF (decode_byte sc s 19) (\<lambda>b0. bindF (decode_byte sc s 21) (\<lambda>b1.
         bindF (decode_byte sc s 24) (\<lambda>b2. bindF (decode_byte sc s 26) (\<lambda>b3.
         bindF (decode_byte sc s 28) (\<lambda>b4. bindF (decode_byte sc s 30) (\<lambda>b5.
         bindF (decode_byte sc s 32) (\<lambda>b6. bindF (decode_byte sc s 34) (\<lambda>b7.
           Inr (Some \<lparr>Data1 = d1, Data2 = d2, Data3 = d3,
                      Data4 = [b0, b1, b2, b3, b4, b5, b6, b7]\<rparr>)))))))))))))"

text \<open>
  The same function as \<^verbatim>\<open>bool string_to_guid(char const* s, GUID& id)\<close>: the checks and
  the assignments are the same, \<^verbatim>\<open>id\<close> is written only after every check has passed.
\<close>

definition string_to_guid_ref :: "bool \<Rightarrow> string \<Rightarrow> GUID \<Rightarrow> fault + (bool \<times> GUID)" where
  "string_to_guid_ref sc s ident =
     bindF (string_to_guid sc s) (\<lambda>r.
       case r of None \<Rightarrow> Inr (False, ident) | Some g \<Rightarrow> Inr (True, g))"

section \<open>Interface descriptors\<close>

text \<open>
  An interface declared with \<^verbatim>\<open>PASCAL_INTERFACE_BEGIN(__NAME, __GUID)\<close> (or as
  \<^verbatim>\<open>PascalInterface<IID>\<close>): the name of the struct and the text of its identifier.
\<close>

record interface =
  iname :: string
  iid_text :: string

definition PI_IUNKNOWN_IID :: string where
  "PI_IUNKNOWN_IID = ''00000000-0000-0000-C000-000000000046''"

definition IUnknown :: interface where
  "IUnknown = \<lparr>iname = ''IUnknown'', iid_text = PI_IUNKNOWN_IID\<rparr>"

text \<open>
  \<^verbatim>\<open>__guid()\<close>: the identifier is computed from the text in a constant expression and
  guarded by \<^verbatim>\<open>static_assert\<close>. \<open>None\<close> means that the program does not compile:
  the assertion fails, or the evaluation is not a constant expression.
\<close>

definition guid_of :: "bool \<Rightarrow> interface \<Rightarrow> GUID option" where
  "guid_of sc I =
     (case string_to_guid sc (iid_text I) of
        Inl e \<Rightarrow> None
      | Inr None \<Rightarrow> None
      | Inr (Some g) \<Rightarrow> Some g)"

type_synonym entry = "interface \<times> GUID"

definition entry_of :: "bool \<Rightarrow> interface \<Rightarrow> entry option" where
  "entry_of sc I = map_option (Pair I) (guid_of sc I)"

text \<open>
  \<^verbatim>\<open>class UnknownImpl : public IUnknown, public Interfaces...\<close>. The pack that
  \<^verbatim>\<open>QueryInterface\<close> hands to \<^verbatim>\<open>QueryInterfaceImpl<IUnknown, Interfaces...>\<close> is
  \<^verbatim>\<open>IUnknown\<close> followed by the interfaces as declared, each with the constant
  \<^verbatim>\<open>g = I1::__guid()\<close>. The class compiles when no type is a direct base twice and
  every \<^verbatim>\<open>__guid()\<close> compiles; nothing else is checked.
\<close>

definition UnknownImpl_pack :: "bool \<Rightarrow> interface list \<Rightarrow> (entry \<times> entry list) option" where
  "UnknownImpl_pack sc Interfaces =
     (if distinct (map iname (IUnknown # Interfaces)) then
        (case entry_of sc IUnknown of
           None \<Rightarrow> None
         | Some e \<Rightarrow>
             (case those (map (entry_of sc) Interfaces) of
                None \<Rightarrow> None
              | Some es \<Rightarrow> Some (e, es)))
      else None)"

section \<open>The hybrid object \<^verbatim>\<open>UnknownImpl\<close>\<close>

text \<open>
  The members of \<^verbatim>\<open>UnknownImpl\<close>. \<open>refMutex\<close> is \<open>True\<close> while a lock on the mutex
  is held; \<open>deleted\<close> counts how often \<^verbatim>\<open>delete this\<close> has run. The counters are
  \<^verbatim>\<open>int\<close>: 32 bits, signed, with overflow undefined.
\<close>

record UnknownImpl =
  refCountCom :: int
  refCountSharedPtr :: int
  refStarted :: bool
  refMutex :: bool
  deleted :: nat

definition INT_MAX :: int where
  "INT_MAX = 2147483647"

definition INT_MIN :: int where
  "INT_MIN = - 2147483648"

definition int_add :: "int \<Rightarrow> int \<Rightarrow> fault + int" where
  "int_add a b =
     (if INT_MIN \<le> a + b \<and> a + b \<le> INT_MAX then Inr (a + b) else Inl SignedOverflow)"

text \<open>The constructor.\<close>

definition UnknownImpl_ctor :: UnknownImpl where
  "UnknownImpl_ctor =
     \<lparr>refCountCom = 0, refCountSharedPtr = 0, refStarted = False, refMutex = False,
      deleted = 0\<rparr>"

text \<open>
  \<^verbatim>\<open>std::scoped_lock guard(refMutex)\<close> and the destructor of the guard. Both touch the
  mutex, a member of the object.
\<close>

definition scoped_lock :: "UnknownImpl \<Rightarrow> fault + UnknownImpl" where
  "scoped_lock u =
     (if deleted u > 0 then Inl UseAfterDelete
      else if refMutex u then Inl MutexHeld
      else Inr (u\<lparr>refMutex := True\<rparr>))"

definition delete_guard :: "UnknownImpl \<Rightarrow> fault + UnknownImpl" where
  "delete_guard u =
     (if deleted u > 0 then Inl UseAfterDelete else Inr (u\<lparr>refMutex := False\<rparr>))"

definition assertAddReference :: "UnknownImpl \<Rightarrow> fault + unit" where
  "assertAddReference u =
     (if refStarted u then
        bindF (int_add (refCountCom u) (refCountSharedPtr u)) (\<lambda>n.
          if n > 0 then Inr () else Inl AssertionFailed)
      else
        bindF (int_add (refCountCom u) (refCountSharedPtr u)) (\<lambda>n.
          if n = 0 then Inr () else Inl AssertionFailed))"

text \<open>
  \<^verbatim>\<open>TryDelete(guard)\<close>: \<open>guard\<close> tells whether the caller's guard pointer is non-null;
  the result carries the pointer back, null once the guard has been destructed here.
\<close>

definition TryDelete :: "bool \<Rightarrow> UnknownImpl \<Rightarrow> fault + (bool \<times> UnknownImpl)" where
  "TryDelete guard u =
     (if refCountCom u = 0 \<and> refCountSharedPtr u = 0 then
        bindF (if guard then delete_guard u else Inr u) (\<lambda>u1.
          Inr (False, u1\<lparr>deleted := deleted u1 + 1\<rparr>))
      else Inr (guard, u))"

text \<open>\<^verbatim>\<open>AddRef()\<close> returns the new value of \<^verbatim>\<open>refCountCom\<close>.\<close>

definition AddRef :: "UnknownImpl \<Rightarrow> fault + (int \<times> UnknownImpl)" where
  "AddRef u =
     bindF (scoped_lock u) (\<lambda>u1.
     bindF (assertAddReference u1) (\<lambda>_.
     bindF (int_add (refCountCom u1) 1) (\<lambda>n.
     bindF (delete_guard (u1\<lparr>refStarted := True, refCountCom := n\<rparr>)) (\<lambda>u2.
       Inr (n, u2)))))"

text \<open>
  \<^verbatim>\<open>shared_ptr<T>()\<close> for a type \<^verbatim>\<open>T\<close> of the object, so that the
  \<^verbatim>\<open>dynamic_cast\<close> succeeds. The handle it returns owns one count of
  \<^verbatim>\<open>refCountSharedPtr\<close>; only the object's state is returned here.
\<close>

definition shared_ptr :: "UnknownImpl \<Rightarrow> fault + UnknownImpl" where
  "shared_ptr u =
     bindF (scoped_lock u) (\<lambda>u1.
     bindF (assertAddReference u1) (\<lambda>_.
     bindF (int_add (refCountSharedPtr u1) 1) (\<lambda>n.
       delete_guard (u1\<lparr>refStarted := True, refCountSharedPtr := n\<rparr>))))"

text \<open>
  The deleter of the handle: what runs when the last copy of the handle goes away.
  \<open>shared_ptr_deleter_enter\<close> is its first part: the guard, the two assertions and the
  decrement, which leave the mutex held.
\<close>

definition shared_ptr_deleter_enter :: "UnknownImpl \<Rightarrow> fault + UnknownImpl" where
  "shared_ptr_deleter_enter u =
     bindF (scoped_lock u) (\<lambda>u1.
       if \<not> refStarted u1 then Inl AssertionFailed
       else if \<not> refCountSharedPtr u1 > 0 then Inl AssertionFailed
       else Inr (u1\<lparr>refCountSharedPtr := refCountSharedPtr u1 - 1\<rparr>))"

definition shared_ptr_deleter :: "UnknownImpl \<Rightarrow> fault + UnknownImpl" where
  "shared_ptr_deleter u =
     bindF (shared_ptr_deleter_enter u) (\<lambda>u2.
     bindF (if refCountSharedPtr u2 = 0 then TryDelete True u2 else Inr (True, u2))
       (\<lambda>(guard, u3). if guard then delete_guard u3 else Inr u3))"

text \<open>
  \<^verbatim>\<open>Release()\<close>, in the parts in which it runs.
  \<^item> \<open>Release_enter\<close>: the guard, the two assertions and the decrement, which leave the
    mutex held.
  \<^item> \<open>Release_locked\<close>: the call up to the point where its guard is gone. When the
    decrement reached zero it ends in the hard-coded \<^verbatim>\<open>return 0\<close> (\<open>Some 0\<close>);
    otherwise it ends in \<^verbatim>\<open>delete guard\<close> with \<^verbatim>\<open>return refCountCom\<close> still to
    come (\<open>None\<close>).
  \<^item> \<open>Release_return\<close>: that last statement, \<^verbatim>\<open>return refCountCom\<close>. It reads the
    member after the mutex has been given back, so calls of other threads may run
    between \<open>Release_locked\<close> and \<open>Release_return\<close>.
  \<^item> \<open>Release\<close>: the whole call when nothing runs between its parts.
  The header with the \<^verbatim>\<open>std::unique_ptr\<close> guard evaluates \<^verbatim>\<open>return refCountCom\<close>
  before the guard is destructed, with the mutex held: \<open>Release_unique_guard\<close>.
\<close>

definition Release_enter :: "UnknownImpl \<Rightarrow> fault + UnknownImpl" where
  "Release_enter u =
     bindF (scoped_lock u) (\<lambda>u1.
       if \<not> refStarted u1 then Inl AssertionFailed
       else if \<not> refCountCom u1 > 0 then Inl AssertionFailed
       else Inr (u1\<lparr>refCountCom := refCountCom u1 - 1\<rparr>))"

definition Release_locked :: "UnknownImpl \<Rightarrow> fault + (int option \<times> UnknownImpl)" where
  "Release_locked u =
     bindF (Release_enter u) (\<lambda>u2.
       if refCountCom u2 = 0 then
         bindF (TryDelete True u2) (\<lambda>(guard, u3).
         bindF (if guard then delete_guard u3 else Inr u3) (\<lambda>u4. Inr (Some 0, u4)))
       else
         bindF (delete_guard u2) (\<lambda>u3. Inr (None, u3)))"

definition Release_return :: "UnknownImpl \<Rightarrow> fault + int" where
  "Release_return u = (if deleted u > 0 then Inl UseAfterDelete else Inr (refCountCom u))"

definition Release :: "UnknownImpl \<Rightarrow> fault + (int \<times> UnknownImpl)" where
  "Release u =
     bindF (Release_locked u) (\<lambda>(r, u1).
       case r of
         Some n \<Rightarrow> Inr (n, u1)
       | None \<Rightarrow> bindF (Release_return u1) (\<lambda>n. Inr (n, u1)))"

definition Release_unique_guard :: "UnknownImpl \<Rightarrow> fault + (int \<times> UnknownImpl)" where
  "Release_unique_guard u =
     bindF (Release_enter u) (\<lambda>u2.
       if refCountCom u2 = 0 then
         bindF (TryDelete True u2) (\<lambda>(guard, u3).
         bindF (if guard then delete_guard u3 else Inr u3) (\<lambda>u4. Inr (0, u4)))
       else
         bindF (delete_guard u2) (\<lambda>u3. Inr (refCountCom u2, u3)))"

section \<open>Interface lookup\<close>

text \<open>
  A \<^verbatim>\<open>void*\<close>: null, some address that is not this object, or
  \<^verbatim>\<open>static_cast<I1*>(this)\<close>, the object narrowed to the interface \<^verbatim>\<open>I1\<close>.
\<close>

datatype pvoid = Nullptr | Foreign nat | Upcast interface

text \<open>
  \<^verbatim>\<open>QueryInterfaceImpl<I1, IRest...>(guid, pvObject)\<close>: the result is the returned
  \<^verbatim>\<open>bool\<close>, the content of \<^verbatim>\<open>pvObject\<close> and the object.
\<close>

fun QueryInterfaceImpl ::
  "entry \<Rightarrow> entry list \<Rightarrow> GUID \<Rightarrow> pvoid \<Rightarrow> UnknownImpl \<Rightarrow> fault + (bool \<times> pvoid \<times> UnknownImpl)"
where
  "QueryInterfaceImpl I1 IRest guid pvObject u =
     (if guid_eq guid (snd I1) then
        bindF (AddRef u) (\<lambda>(n, u1). Inr (True, Upcast (fst I1), u1))
      else
        (case IRest of
           [] \<Rightarrow> Inr (False, pvObject, u)
         | I2 # IRest2 \<Rightarrow> QueryInterfaceImpl I2 IRest2 guid pvObject u))"

declare QueryInterfaceImpl.simps [simp del]

text \<open>
  \<^verbatim>\<open>QueryInterface(pguid, ppvObject)\<close>. \<open>pguid\<close> is \<open>None\<close> for a null pointer;
  \<open>ppvObject\<close> is \<open>None\<close> for a null pointer and otherwise holds the content of the
  slot it points to. The result is the code, the slot and the object. The call is a
  virtual call, which reads the object.
\<close>

definition QueryInterface ::
  "entry \<times> entry list \<Rightarrow> GUID option \<Rightarrow> pvoid option \<Rightarrow> UnknownImpl
    \<Rightarrow> fault + (SafeResult \<times> pvoid option \<times> UnknownImpl)"
where
  "QueryInterface pack pguid ppvObject u =
     (if deleted u > 0 then Inl UseAfterDelete
      else
        (case pguid of
           None \<Rightarrow> Inr (E_POINTER, ppvObject, u)
         | Some guid \<Rightarrow>
             (case ppvObject of
                None \<Rightarrow> Inr (E_POINTER, ppvObject, u)
              | Some pvObject \<Rightarrow>
                  bindF (QueryInterfaceImpl (fst pack) (snd pack) guid pvObject u)
                    (\<lambda>(found, pv, u1).
                       if found then Inr (S_OK, Some pv, u1)
                       else Inr (E_NOINTERFACE, Some pv, u1)))))"

section \<open>Sequences of calls\<close>

text \<open>
  Every call changes the object only between taking and giving back the object's mutex,
  and a call that finds the mutex held cannot enter. So the calls of concurrent threads
  take effect one after the other, and an interleaving is the list of their locked parts
  in the order in which they got the mutex. For \<^verbatim>\<open>Release\<close> the locked part is
  \<open>Release_locked\<close>; the read of the return value that may follow it does not change
  the object.
\<close>

datatype call =
  CallAddRef
| CallRelease
| CallSharedPtr
| CallSharedPtrDeleter
| CallQueryInterface "GUID option" "pvoid option"

fun step :: "entry \<times> entry list \<Rightarrow> call \<Rightarrow> UnknownImpl \<Rightarrow> fault + UnknownImpl" where
  "step pack CallAddRef u = bindF (AddRef u) (\<lambda>(n, u1). Inr u1)"
| "step pack CallRelease u = bindF (Release_locked u) (\<lambda>(r, u1). Inr u1)"
| "step pack CallSharedPtr u = shared_ptr u"
| "step pack CallSharedPtrDeleter u = shared_ptr_deleter u"
| "step pack (CallQueryInterface pguid ppvObject) u =
     bindF (QueryInterface pack pguid ppvObject u) (\<lambda>(r, slot, u1). Inr u1)"

fun run :: "entry \<times> entry list \<Rightarrow> call list \<Rightarrow> UnknownImpl \<Rightarrow> fault + UnknownImpl" where
  "run pack [] u = Inr u"
| "run pack (c # cs) u = bindF (step pack c u) (run pack cs)"

section \<open>Predicates of the specification\<close>

text \<open>
  The definitions of this section are not code: they say, in the words of the
  specification, what the results below are about.
\<close>

text \<open>The value of \<^verbatim>\<open>IUnknown::__guid()\<close>.\<close>

definition IID_IUnknown :: GUID where
  "IID_IUnknown =
     \<lparr>Data1 = 0, Data2 = 0, Data3 = 0, Data4 = [0xC0, 0, 0, 0, 0, 0, 0, 0x46]\<rparr>"

text \<open>
  A live object between two calls: not deleted, its mutex free, both counters
  non-negative, started exactly when a reference is out, and room for one more reference
  before the \<^verbatim>\<open>int\<close> arithmetic of \<^verbatim>\<open>assertAddReference\<close> and of the increment
  overflows.
\<close>

definition live :: "UnknownImpl \<Rightarrow> bool" where
  "live u \<longleftrightarrow>
     deleted u = 0 \<and> \<not> refMutex u \<and> 0 \<le> refCountCom u \<and> 0 \<le> refCountSharedPtr u \<and>
     (refStarted u \<longleftrightarrow> 0 < refCountCom u + refCountSharedPtr u) \<and>
     refCountCom u + refCountSharedPtr u < INT_MAX"

text \<open>
  The canonical text of the specification: 36 characters, \<^verbatim>\<open>-\<close> at the positions 8,
  13, 18 and 23, a hex digit (\<^verbatim>\<open>0-9\<close>, \<^verbatim>\<open>a-f\<close>, \<^verbatim>\<open>A-F\<close>) everywhere else. The
  identifier it denotes reads each group of digits as a big-endian number: eight digits
  for \<open>Data1\<close>, four for \<open>Data2\<close>, four for \<open>Data3\<close>, and the remaining sixteen as
  eight pairs, one for each byte of \<open>Data4\<close>.
\<close>

definition char_in :: "char \<Rightarrow> char \<Rightarrow> char \<Rightarrow> bool" where
  "char_in c lo hi \<longleftrightarrow> (of_char lo :: nat) \<le> of_char c \<and> (of_char c :: nat) \<le> of_char hi"

definition is_hex_digit :: "char \<Rightarrow> bool" where
  "is_hex_digit c \<longleftrightarrow>
     char_in c CHR ''0'' CHR ''9'' \<or> char_in c CHR ''a'' CHR ''f'' \<or> char_in c CHR ''A'' CHR ''F''"

definition digit_value :: "char \<Rightarrow> nat" where
  "digit_value c =
     (if char_in c CHR ''0'' CHR ''9'' then of_char c - of_char CHR ''0''
      else if char_in c CHR ''a'' CHR ''f'' then 10 + (of_char c - of_char CHR ''a'')
      else 10 + (of_char c - of_char CHR ''A''))"

definition dash_position :: "nat \<Rightarrow> bool" where
  "dash_position i \<longleftrightarrow> i = 8 \<or> i = 13 \<or> i = 18 \<or> i = 23"

definition canonical_text :: "string \<Rightarrow> bool" where
  "canonical_text s \<longleftrightarrow>
     length s = 36 \<and>
     (\<forall>i<36. if dash_position i then s ! i = CHR ''-'' else is_hex_digit (s ! i))"

definition hex_number :: "string \<Rightarrow> nat" where
  "hex_number cs = foldl (\<lambda>a c. 16 * a + digit_value c) 0 cs"

definition expected_guid :: "string \<Rightarrow> GUID" where
  "expected_guid s =
     \<lparr>Data1 = of_nat (hex_number (take 8 s)),
      Data2 = of_nat (hex_number (take 4 (drop 9 s))),
      Data3 = of_nat (hex_number (take 4 (drop 14 s))),
      Data4 = map (\<lambda>k. of_nat (hex_number (take 2 (drop k s)))) [19, 21, 24, 26, 28, 30, 32, 34]\<rparr>"

text \<open>What the checking loop asks of position \<open>i\<close>, position 36 being the terminator.\<close>

definition position_ok :: "string \<Rightarrow> nat \<Rightarrow> bool" where
  "position_ok s i \<longleftrightarrow>
     (if i = 36 then length s = 36
      else i < length s \<and> (if dash_position i then s ! i = CHR ''-'' else is_hex_digit (s ! i)))"

text \<open>The invariant of the object between two calls.\<close>

definition object_invariant :: "UnknownImpl \<Rightarrow> bool" where
  "object_invariant u \<longleftrightarrow>
     \<not> refMutex u \<and> 0 \<le> refCountCom u \<and> 0 \<le> refCountSharedPtr u \<and> deleted u \<le> 1 \<and>
     (\<not> refStarted u \<longrightarrow> refCountCom u = 0 \<and> refCountSharedPtr u = 0 \<and> deleted u = 0) \<and>
     (refStarted u \<and> deleted u = 0 \<longrightarrow> 0 < refCountCom u + refCountSharedPtr u) \<and>
     (deleted u = 1 \<longrightarrow> refCountCom u = 0 \<and> refCountSharedPtr u = 0)"

text \<open>
  What a call adds to \<^verbatim>\<open>refCountCom\<close> and to \<^verbatim>\<open>refCountSharedPtr\<close> when it returns:
  \<^verbatim>\<open>AddRef\<close> and a \<^verbatim>\<open>QueryInterface\<close> that finds its identifier acquire an external
  reference, \<^verbatim>\<open>shared_ptr\<close> acquires a shared one, \<^verbatim>\<open>Release\<close> and the deleter of a
  handle give one back. A list of calls is balanced when both sums are zero.
\<close>

fun com_delta :: "entry \<times> entry list \<Rightarrow> call \<Rightarrow> int" where
  "com_delta pack CallAddRef = 1"
| "com_delta pack CallRelease = - 1"
| "com_delta pack (CallQueryInterface (Some guid) (Some pv)) =
     (if guid \<in> snd ` set (fst pack # snd pack) then 1 else 0)"
| "com_delta pack c = 0"

fun shared_delta :: "call \<Rightarrow> int" where
  "shared_delta CallSharedPtr = 1"
| "shared_delta CallSharedPtrDeleter = - 1"
| "shared_delta c = 0"

definition acquires :: "entry \<times> entry list \<Rightarrow> call \<Rightarrow> bool" where
  "acquires pack c \<longleftrightarrow> com_delta pack c = 1 \<or> shared_delta c = 1"

definition releases :: "call \<Rightarrow> bool" where
  "releases c \<longleftrightarrow> c = CallRelease \<or> c = CallSharedPtrDeleter"




text \<open>What one successful call does to the object.\<close>

definition effect :: "entry \<times> entry list \<Rightarrow> call \<Rightarrow> UnknownImpl \<Rightarrow> UnknownImpl \<Rightarrow> bool" where
  "effect pack c u u' \<longleftrightarrow>
     deleted u = 0 \<and> (\<not> refMutex u \<longrightarrow> \<not> refMutex u') \<and>
     refCountCom u' = refCountCom u + com_delta pack c \<and>
     refCountSharedPtr u' = refCountSharedPtr u + shared_delta c \<and>
     refStarted u' = (refStarted u \<or> acquires pack c) \<and>
     deleted u' =
       (if releases c \<and> refCountCom u' = 0 \<and> refCountSharedPtr u' = 0 then 1 else 0) \<and>
     (acquires pack c \<longrightarrow>
        (if refStarted u then 0 < refCountCom u + refCountSharedPtr u
         else refCountCom u + refCountSharedPtr u = 0)) \<and>
     (c = CallRelease \<longrightarrow> refStarted u \<and> 0 < refCountCom u) \<and>
     (c = CallSharedPtrDeleter \<longrightarrow> refStarted u \<and> 0 < refCountSharedPtr u)"

section \<open>Interface lookup: results\<close>

lemma guid_of_IUnknown: "guid_of sc IUnknown = Some IID_IUnknown"
  by (simp add: guid_of_def IUnknown_def PI_IUNKNOWN_IID_def IID_IUnknown_def
      string_to_guid_def check_loop.simps check_char_def bindF_def deref_def char_to_int_def
      hex2bin_at_def hex2bin_def decode_Data1_def decode_short_def decode_byte_def hexval_def)

lemma guid_eq_iff: "guid_eq a b \<longleftrightarrow> a = b"
  by (cases a, cases b) (auto simp: guid_eq_def)

lemma AddRef_live:
  "live u \<Longrightarrow> AddRef u = Inr (refCountCom u + 1, u\<lparr>refStarted := True, refCountCom := refCountCom u + 1\<rparr>)"
  by (auto simp: live_def AddRef_def scoped_lock_def delete_guard_def assertAddReference_def
      int_add_def bindF_def INT_MAX_def INT_MIN_def)

lemma QueryInterfaceImpl_hit:
  "snd I1 = guid \<Longrightarrow>
   QueryInterfaceImpl I1 IRest guid pv u =
     bindF (AddRef u) (\<lambda>(n, u1). Inr (True, Upcast (fst I1), u1))"
  by (subst QueryInterfaceImpl.simps) (simp add: guid_eq_iff)

lemma QueryInterfaceImpl_miss_Nil:
  "snd I1 \<noteq> guid \<Longrightarrow> QueryInterfaceImpl I1 [] guid pv u = Inr (False, pv, u)"
  by (subst QueryInterfaceImpl.simps) (auto simp: guid_eq_iff)

lemma QueryInterfaceImpl_miss_Cons:
  "snd I1 \<noteq> guid \<Longrightarrow>
   QueryInterfaceImpl I1 (I2 # IRest) guid pv u = QueryInterfaceImpl I2 IRest guid pv u"
  by (subst QueryInterfaceImpl.simps) (auto simp: guid_eq_iff)

lemma QueryInterfaceImpl_no_match:
  "\<forall>e\<in>set (I1 # IRest). snd e \<noteq> guid \<Longrightarrow>
   QueryInterfaceImpl I1 IRest guid pv u = Inr (False, pv, u)"
  by (induction IRest arbitrary: I1)
    (simp_all add: QueryInterfaceImpl_miss_Nil QueryInterfaceImpl_miss_Cons)

lemma QueryInterfaceImpl_first_match:
  "I1 # IRest = pre @ e # post \<Longrightarrow> \<forall>x\<in>set pre. snd x \<noteq> guid \<Longrightarrow> snd e = guid \<Longrightarrow>
   QueryInterfaceImpl I1 IRest guid pv u =
     bindF (AddRef u) (\<lambda>(n, u1). Inr (True, Upcast (fst e), u1))"
proof (induction pre arbitrary: I1 IRest)
  case Nil
  then show ?case by (simp add: QueryInterfaceImpl_hit)
next
  case (Cons p pre)
  from Cons.prems have I1: "I1 = p" and rest: "IRest = pre @ e # post" by simp_all
  from Cons.prems I1 have miss: "snd I1 \<noteq> guid" by simp
  obtain I2 IRest2 where split: "IRest = I2 # IRest2" "I2 # IRest2 = pre @ e # post"
    using rest by (cases pre) auto
  have "QueryInterfaceImpl I2 IRest2 guid pv u =
      bindF (AddRef u) (\<lambda>(n, u1). Inr (True, Upcast (fst e), u1))"
    using Cons.IH [OF split(2)] Cons.prems by simp
  with miss split(1) show ?case by (simp add: QueryInterfaceImpl_miss_Cons)
qed

lemma QueryInterface_first_match:
  assumes "live u" and "fst pack # snd pack = pre @ e # post"
    and "\<forall>x\<in>set pre. snd x \<noteq> guid" and "snd e = guid"
  shows "QueryInterface pack (Some guid) (Some pv) u =
     Inr (S_OK, Some (Upcast (fst e)), u\<lparr>refStarted := True, refCountCom := refCountCom u + 1\<rparr>)"
proof -
  from assms(1) have "deleted u = 0" by (simp add: live_def)
  then show ?thesis
    by (simp add: QueryInterface_def QueryInterfaceImpl_first_match [OF assms(2-4)]
        AddRef_live [OF assms(1)] bindF_def)
qed

lemma QueryInterface_no_match:
  assumes "deleted u = 0" and "\<forall>x\<in>set (fst pack # snd pack). snd x \<noteq> guid"
  shows "QueryInterface pack (Some guid) (Some pv) u = Inr (E_NOINTERFACE, Some pv, u)"
  using assms(1) by (simp add: QueryInterface_def QueryInterfaceImpl_no_match [OF assms(2)] bindF_def)

lemma those_entry_of:
  "those (map (entry_of sc) Is) = Some es \<Longrightarrow> map fst es = Is"
proof (induction Is arbitrary: es)
  case Nil
  then show ?case by simp
next
  case (Cons I Is)
  then show ?case
    by (auto simp: entry_of_def split: option.splits)
qed

lemma UnknownImpl_pack_order:
  "UnknownImpl_pack sc Interfaces = Some pack \<Longrightarrow>
   map fst (fst pack # snd pack) = IUnknown # Interfaces"
  by (auto simp: UnknownImpl_pack_def entry_of_def [of sc IUnknown] those_entry_of
      split: if_splits option.splits)

lemma those_entry_of_Some:
  "\<forall>I\<in>set Is. guid_of sc I \<noteq> None \<Longrightarrow> \<exists>es. those (map (entry_of sc) Is) = Some es"
  by (induction Is) (auto simp: entry_of_def)

lemma UnknownImpl_pack_Some:
  assumes "distinct (map iname (IUnknown # Interfaces))"
    and "\<forall>I\<in>set (IUnknown # Interfaces). guid_of sc I \<noteq> None"
  shows "\<exists>pack. UnknownImpl_pack sc Interfaces = Some pack"
proof -
  from assms(2) obtain g where g: "guid_of sc IUnknown = Some g" by auto
  from assms(2) obtain es where es: "those (map (entry_of sc) Interfaces) = Some es"
    using those_entry_of_Some [of Interfaces sc] by auto
  from assms(1) g es show ?thesis
    by (simp add: UnknownImpl_pack_def entry_of_def [of sc IUnknown])
qed

lemma those_entry_of_map:
  "those (map (entry_of sc) Is) = Some es \<Longrightarrow>
   es = map (\<lambda>I. (I, the (guid_of sc I))) Is \<and> (\<forall>I\<in>set Is. guid_of sc I \<noteq> None)"
proof (induction Is arbitrary: es)
  case Nil
  then show ?case by simp
next
  case (Cons I Is)
  then show ?case
    by (auto simp: entry_of_def split: option.splits)
qed

lemma UnknownImpl_pack_entries:
  assumes "UnknownImpl_pack sc Is = Some pack"
  shows "fst pack # snd pack = map (\<lambda>I. (I, the (guid_of sc I))) (IUnknown # Is)"
    and "\<forall>I\<in>set (IUnknown # Is). guid_of sc I \<noteq> None"
  using assms
  by (auto simp: UnknownImpl_pack_def entry_of_def [of sc IUnknown]
      dest: those_entry_of_map split: if_splits option.splits)

lemma class_first_match:
  assumes p: "UnknownImpl_pack sc Is = Some pack" and l: "live u"
    and sp: "IUnknown # Is = Is1 @ I # Is2" and g: "guid_of sc I = Some guid"
    and n: "\<forall>J\<in>set Is1. guid_of sc J \<noteq> Some guid"
  shows "QueryInterface pack (Some guid) (Some pv) u =
     Inr (S_OK, Some (Upcast I), u\<lparr>refStarted := True, refCountCom := refCountCom u + 1\<rparr>)"
proof -
  let ?f = "\<lambda>I. (I, the (guid_of sc I))"
  from UnknownImpl_pack_entries [OF p] sp
  have e: "fst pack # snd pack = map ?f Is1 @ ?f I # map ?f Is2"
    and v: "\<forall>J\<in>set Is1. guid_of sc J \<noteq> None"
    by simp_all
  have m: "\<forall>x\<in>set (map ?f Is1). snd x \<noteq> guid"
  proof
    fix x
    assume "x \<in> set (map ?f Is1)"
    then obtain J where J: "J \<in> set Is1" "x = ?f J" by auto
    with v obtain h where h: "guid_of sc J = Some h" by auto
    with n J have "h \<noteq> guid" by auto
    with J h show "snd x \<noteq> guid" by simp
  qed
  from g have s: "snd (?f I) = guid" by simp
  from QueryInterface_first_match [OF l e m s, of pv] show ?thesis by simp
qed

lemma class_no_match:
  assumes p: "UnknownImpl_pack sc Is = Some pack" and d: "deleted u = 0"
    and n: "\<forall>I\<in>set (IUnknown # Is). guid_of sc I \<noteq> Some guid"
  shows "QueryInterface pack (Some guid) (Some pv) u = Inr (E_NOINTERFACE, Some pv, u)"
proof -
  let ?f = "\<lambda>I. (I, the (guid_of sc I))"
  note e = UnknownImpl_pack_entries [OF p]
  have "\<forall>x\<in>set (fst pack # snd pack). snd x \<noteq> guid"
  proof
    fix x
    assume "x \<in> set (fst pack # snd pack)"
    with e(1) have "x \<in> set (map ?f (IUnknown # Is))" by simp
    then obtain J where J: "J \<in> set (IUnknown # Is)" "x = ?f J" by auto
    with e(2) obtain h where h: "guid_of sc J = Some h" by auto
    with n J have "h \<noteq> guid" by auto
    with J h show "snd x \<noteq> guid" by simp
  qed
  from QueryInterface_no_match [OF d this] show ?thesis .
qed

lemma class_entries_all2:
  assumes "UnknownImpl_pack sc Is = Some pack"
  shows "list_all2 (\<lambda>I e. fst e = I \<and> guid_of sc I = Some (snd e)) (IUnknown # Is)
    (fst pack # snd pack)"
proof -
  note e = UnknownImpl_pack_entries [OF assms]
  have "list_all2 (\<lambda>I e. fst e = I \<and> guid_of sc I = Some (snd e)) (IUnknown # Is)
    (map (\<lambda>I. (I, the (guid_of sc I))) (IUnknown # Is))"
    unfolding list_all2_map2 using e(2) by (intro list_all2_same [THEN iffD2]) auto
  with e(1) show ?thesis by simp
qed

lemma UnknownImpl_pack_compiles_iff:
  "UnknownImpl_pack sc Is \<noteq> None \<longleftrightarrow>
     distinct (map iname (IUnknown # Is)) \<and> (\<forall>I\<in>set (IUnknown # Is). guid_of sc I \<noteq> None)"
proof
  assume "UnknownImpl_pack sc Is \<noteq> None"
  then obtain pack where p: "UnknownImpl_pack sc Is = Some pack" by auto
  then have "distinct (map iname (IUnknown # Is))"
    by (simp add: UnknownImpl_pack_def split: if_splits)
  with UnknownImpl_pack_entries(2) [OF p]
  show "distinct (map iname (IUnknown # Is)) \<and> (\<forall>I\<in>set (IUnknown # Is). guid_of sc I \<noteq> None)"
    by simp
next
  assume "distinct (map iname (IUnknown # Is)) \<and> (\<forall>I\<in>set (IUnknown # Is). guid_of sc I \<noteq> None)"
  then show "UnknownImpl_pack sc Is \<noteq> None"
    using UnknownImpl_pack_Some [of Is sc] by auto
qed

text \<open>Three interfaces for the examples: the texts of the last two give one identifier.\<close>

lemma example_guids:
  "guid_of False \<lparr>iname = ''IFoo'', iid_text = ''11111111-2222-3333-4444-555555555555''\<rparr> =
     Some \<lparr>Data1 = 0x11111111, Data2 = 0x2222, Data3 = 0x3333,
           Data4 = [0x44, 0x44, 0x55, 0x55, 0x55, 0x55, 0x55, 0x55]\<rparr>"
  "guid_of False \<lparr>iname = ''IBar'', iid_text = ''aaaaaaaa-BBBB-cccc-DDDD-eeeeeeeeeeee''\<rparr> =
     Some \<lparr>Data1 = 0xAAAAAAAA, Data2 = 0xBBBB, Data3 = 0xCCCC,
           Data4 = [0xDD, 0xDD, 0xEE, 0xEE, 0xEE, 0xEE, 0xEE, 0xEE]\<rparr>"
  "guid_of False \<lparr>iname = ''IBaz'', iid_text = ''AAAAAAAA-bbbb-CCCC-dddd-EEEEEEEEEEEE''\<rparr> =
     Some \<lparr>Data1 = 0xAAAAAAAA, Data2 = 0xBBBB, Data3 = 0xCCCC,
           Data4 = [0xDD, 0xDD, 0xEE, 0xEE, 0xEE, 0xEE, 0xEE, 0xEE]\<rparr>"
  by code_simp+

text \<open>
  Claim C7. \<^verbatim>\<open>QueryInterface\<close> called on a live object with a null identifier pointer
  or a null slot pointer returns \<^verbatim>\<open>E_POINTER\<close> and does nothing else: the slot keeps
  its content and the object, with both counters, is unchanged.
\<close>

theorem QueryInterface_null:
  "deleted u = 0 \<Longrightarrow> pguid = None \<or> ppvObject = None \<Longrightarrow>
   QueryInterface pack pguid ppvObject u = Inr (E_POINTER, ppvObject, u)"
  by (auto simp: QueryInterface_def split: option.splits)

theorem QueryInterface_null_witness:
  "deleted UnknownImpl_ctor = 0 \<and> (None = (None :: GUID option) \<or> Some Nullptr = None) \<and>
   QueryInterface ((IUnknown, IID_IUnknown), []) None (Some Nullptr) UnknownImpl_ctor =
     Inr (E_POINTER, Some Nullptr, UnknownImpl_ctor)"
  using QueryInterface_null [of UnknownImpl_ctor None "Some Nullptr"
      "((IUnknown, IID_IUnknown), [])"]
  by (simp add: UnknownImpl_ctor_def)

text \<open>
  Claim C3, as stated, fails: in a class whose interfaces \<^verbatim>\<open>IBar\<close> and \<^verbatim>\<open>IBaz\<close> have
  the same identifier, a lookup of the identifier of \<^verbatim>\<open>IBaz\<close> returns \<^verbatim>\<open>S_OK\<close> and
  writes the object narrowed to \<^verbatim>\<open>IBar\<close>, not to \<^verbatim>\<open>IBaz\<close>.
\<close>

theorem shared_identifier_lookup:
  "guid_of False \<lparr>iname = ''IBaz'', iid_text = ''AAAAAAAA-bbbb-CCCC-dddd-EEEEEEEEEEEE''\<rparr> =
     Some \<lparr>Data1 = 0xAAAAAAAA, Data2 = 0xBBBB, Data3 = 0xCCCC,
           Data4 = [0xDD, 0xDD, 0xEE, 0xEE, 0xEE, 0xEE, 0xEE, 0xEE]\<rparr> \<and>
   UnknownImpl_pack False
     [\<lparr>iname = ''IFoo'', iid_text = ''11111111-2222-3333-4444-555555555555''\<rparr>,
      \<lparr>iname = ''IBar'', iid_text = ''aaaaaaaa-BBBB-cccc-DDDD-eeeeeeeeeeee''\<rparr>,
      \<lparr>iname = ''IBaz'', iid_text = ''AAAAAAAA-bbbb-CCCC-dddd-EEEEEEEEEEEE''\<rparr>] =
     Some ((IUnknown, IID_IUnknown),
       [(\<lparr>iname = ''IFoo'', iid_text = ''11111111-2222-3333-4444-555555555555''\<rparr>,
         \<lparr>Data1 = 0x11111111, Data2 = 0x2222, Data3 = 0x3333,
          Data4 = [0x44, 0x44, 0x55, 0x55, 0x55, 0x55, 0x55, 0x55]\<rparr>),
        (\<lparr>iname = ''IBar'', iid_text = ''aaaaaaaa-BBBB-cccc-DDDD-eeeeeeeeeeee''\<rparr>,
         \<lparr>Data1 = 0xAAAAAAAA, Data2 = 0xBBBB, Data3 = 0xCCCC,
          Data4 = [0xDD, 0xDD, 0xEE, 0xEE, 0xEE, 0xEE, 0xEE, 0xEE]\<rparr>),
        (\<lparr>iname = ''IBaz'', iid_text = ''AAAAAAAA-bbbb-CCCC-dddd-EEEEEEEEEEEE''\<rparr>,
         \<lparr>Data1 = 0xAAAAAAAA, Data2 = 0xBBBB, Data3 = 0xCCCC,
          Data4 = [0xDD, 0xDD, 0xEE, 0xEE, 0xEE, 0xEE, 0xEE, 0xEE]\<rparr>)]) \<and>
   QueryInterface ((IUnknown, IID_IUnknown),
       [(\<lparr>iname = ''IFoo'', iid_text = ''11111111-2222-3333-4444-555555555555''\<rparr>,
         \<lparr>Data1 = 0x11111111, Data2 = 0x2222, Data3 = 0x3333,
          Data4 = [0x44, 0x44, 0x55, 0x55, 0x55, 0x55, 0x55, 0x55]\<rparr>),
        (\<lparr>iname = ''IBar'', iid_text = ''aaaaaaaa-BBBB-cccc-DDDD-eeeeeeeeeeee''\<rparr>,
         \<lparr>Data1 = 0xAAAAAAAA, Data2 = 0xBBBB, Data3 = 0xCCCC,
          Data4 = [0xDD, 0xDD, 0xEE, 0xEE, 0xEE, 0xEE, 0xEE, 0xEE]\<rparr>),
        (\<lparr>iname = ''IBaz'', iid_text = ''AAAAAAAA-bbbb-CCCC-dddd-EEEEEEEEEEEE''\<rparr>,
         \<lparr>Data1 = 0xAAAAAAAA, Data2 = 0xBBBB, Data3 = 0xCCCC,
          Data4 = [0xDD, 0xDD, 0xEE, 0xEE, 0xEE, 0xEE, 0xEE, 0xEE]\<rparr>)])
     (Some \<lparr>Data1 = 0xAAAAAAAA, Data2 = 0xBBBB, Data3 = 0xCCCC,
          Data4 = [0xDD, 0xDD, 0xEE, 0xEE, 0xEE, 0xEE, 0xEE, 0xEE]\<rparr>)
     (Some Nullptr)
     \<lparr>refCountCom = 2, refCountSharedPtr = 1, refStarted = True, refMutex = False,
      deleted = 0\<rparr> =
     Inr (S_OK,
          Some (Upcast \<lparr>iname = ''IBar'', iid_text = ''aaaaaaaa-BBBB-cccc-DDDD-eeeeeeeeeeee''\<rparr>),
          \<lparr>refCountCom = 3, refCountSharedPtr = 1, refStarted = True, refMutex = False,
           deleted = 0\<rparr>) \<and>
   Upcast \<lparr>iname = ''IBar'', iid_text = ''aaaaaaaa-BBBB-cccc-DDDD-eeeeeeeeeeee''\<rparr> \<noteq>
   Upcast \<lparr>iname = ''IBaz'', iid_text = ''AAAAAAAA-bbbb-CCCC-dddd-EEEEEEEEEEEE''\<rparr>"
  by code_simp


text \<open>
  Claim C3, amended. In a class that compiles, on a live object, for every identifier
  that is the identifier of some interface \<open>I\<close> of the class, \<^verbatim>\<open>QueryInterface\<close> returns
  \<^verbatim>\<open>S_OK\<close>, writes into the slot the object narrowed to the first interface \<open>J\<close> in
  declaration order (\<^verbatim>\<open>IUnknown\<close> first) that has this identifier, which is \<open>I\<close> when
  no other interface of the class has it, and increments \<^verbatim>\<open>refCountCom\<close> by exactly 1,
  changing nothing else but \<^verbatim>\<open>refStarted\<close>.
\<close>

theorem QueryInterface_first_with_identifier:
  assumes "distinct (map iname (IUnknown # Interfaces))"
    and "\<forall>I\<in>set (IUnknown # Interfaces). guid_of sc I \<noteq> None"
    and "live u" and "I \<in> set (IUnknown # Interfaces)" and "guid_of sc I = Some guid"
  shows "\<exists>pack Is1 J Is2. UnknownImpl_pack sc Interfaces = Some pack \<and>
     IUnknown # Interfaces = Is1 @ J # Is2 \<and> guid_of sc J = Some guid \<and>
     (\<forall>K\<in>set Is1. guid_of sc K \<noteq> Some guid) \<and>
     ((\<forall>K\<in>set (IUnknown # Interfaces). guid_of sc K = Some guid \<longrightarrow> K = I) \<longrightarrow> J = I) \<and>
     QueryInterface pack (Some guid) (Some pv) u =
       Inr (S_OK, Some (Upcast J), u\<lparr>refStarted := True, refCountCom := refCountCom u + 1\<rparr>)"
proof -
  from UnknownImpl_pack_Some [OF assms(1,2)] obtain pack
    where p: "UnknownImpl_pack sc Interfaces = Some pack" ..
  from assms(4,5) have "\<exists>K\<in>set (IUnknown # Interfaces). guid_of sc K = Some guid" by blast
  then obtain Is1 J Is2 where sp: "IUnknown # Interfaces = Is1 @ J # Is2"
    "guid_of sc J = Some guid" "\<forall>K\<in>set Is1. guid_of sc K \<noteq> Some guid"
    using split_list_first_prop [of "IUnknown # Interfaces" "\<lambda>K. guid_of sc K = Some guid"]
    by blast
  have mem: "J \<in> set (IUnknown # Interfaces)"
    by (subst sp(1)) simp
  have uniq: "J = I" if "\<forall>K\<in>set (IUnknown # Interfaces). guid_of sc K = Some guid \<longrightarrow> K = I"
    using that mem sp(2) by blast
  from class_first_match [OF p assms(3) sp(1) sp(2) sp(3), of pv] p sp uniq
  show ?thesis by blast
qed

theorem QueryInterface_first_with_identifier_witness:
  "distinct (map iname [IUnknown, \<lparr>iname = ''IFoo'', iid_text = ''11111111-2222-3333-4444-555555555555''\<rparr>,
     \<lparr>iname = ''IBar'', iid_text = ''aaaaaaaa-BBBB-cccc-DDDD-eeeeeeeeeeee''\<rparr>,
     \<lparr>iname = ''IBaz'', iid_text = ''AAAAAAAA-bbbb-CCCC-dddd-EEEEEEEEEEEE''\<rparr>]) \<and>
   live \<lparr>refCountCom = 2, refCountSharedPtr = 1, refStarted = True, refMutex = False, deleted = 0\<rparr> \<and>
   guid_of False \<lparr>iname = ''IFoo'', iid_text = ''11111111-2222-3333-4444-555555555555''\<rparr> =
     Some \<lparr>Data1 = 0x11111111, Data2 = 0x2222, Data3 = 0x3333, Data4 = [0x44, 0x44, 0x55, 0x55, 0x55, 0x55, 0x55, 0x55]\<rparr> \<and>
   (\<exists>pack. UnknownImpl_pack False [\<lparr>iname = ''IFoo'', iid_text = ''11111111-2222-3333-4444-555555555555''\<rparr>,
       \<lparr>iname = ''IBar'', iid_text = ''aaaaaaaa-BBBB-cccc-DDDD-eeeeeeeeeeee''\<rparr>,
       \<lparr>iname = ''IBaz'', iid_text = ''AAAAAAAA-bbbb-CCCC-dddd-EEEEEEEEEEEE''\<rparr>] = Some pack \<and>
     QueryInterface pack
       (Some \<lparr>Data1 = 0x11111111, Data2 = 0x2222, Data3 = 0x3333, Data4 = [0x44, 0x44, 0x55, 0x55, 0x55, 0x55, 0x55, 0x55]\<rparr>)
       (Some (Foreign 7))
       \<lparr>refCountCom = 2, refCountSharedPtr = 1, refStarted = True, refMutex = False, deleted = 0\<rparr> =
     Inr (S_OK, Some (Upcast \<lparr>iname = ''IFoo'', iid_text = ''11111111-2222-3333-4444-555555555555''\<rparr>),
       \<lparr>refCountCom = 3, refCountSharedPtr = 1, refStarted = True, refMutex = False, deleted = 0\<rparr>))"
proof -
  let ?IFoo = "\<lparr>iname = ''IFoo'', iid_text = ''11111111-2222-3333-4444-555555555555''\<rparr>"
  let ?IBar = "\<lparr>iname = ''IBar'', iid_text = ''aaaaaaaa-BBBB-cccc-DDDD-eeeeeeeeeeee''\<rparr>"
  let ?IBaz = "\<lparr>iname = ''IBaz'', iid_text = ''AAAAAAAA-bbbb-CCCC-dddd-EEEEEEEEEEEE''\<rparr>"
  let ?g1 = "\<lparr>Data1 = 0x11111111, Data2 = 0x2222, Data3 = 0x3333, Data4 = [0x44, 0x44, 0x55, 0x55, 0x55, 0x55, 0x55, 0x55]\<rparr>"
  let ?g2 = "\<lparr>Data1 = 0xAAAAAAAA, Data2 = 0xBBBB, Data3 = 0xCCCC, Data4 = [0xDD, 0xDD, 0xEE, 0xEE, 0xEE, 0xEE, 0xEE, 0xEE]\<rparr>"
  let ?u = "\<lparr>refCountCom = 2, refCountSharedPtr = 1, refStarted = True, refMutex = False, deleted = 0\<rparr>"
  have d: "distinct (map iname (IUnknown # [?IFoo, ?IBar, ?IBaz]))"
    by (simp add: IUnknown_def)
  have v: "\<forall>I\<in>set (IUnknown # [?IFoo, ?IBar, ?IBaz]). guid_of False I \<noteq> None"
    by (simp add: guid_of_IUnknown example_guids)
  have l: "live ?u"
    by (simp add: live_def INT_MAX_def)
  have m: "?IFoo \<in> set (IUnknown # [?IFoo, ?IBar, ?IBaz])"
    by simp
  have uq: "\<forall>K\<in>set (IUnknown # [?IFoo, ?IBar, ?IBaz]). guid_of False K = Some ?g1 \<longrightarrow> K = ?IFoo"
    by (simp add: guid_of_IUnknown example_guids IID_IUnknown_def)
  from QueryInterface_first_with_identifier [OF d v l m example_guids(1), of "Foreign 7"]
  obtain pack Is1 J Is2 where p: "UnknownImpl_pack False [?IFoo, ?IBar, ?IBaz] = Some pack"
    and j: "(\<forall>K\<in>set (IUnknown # [?IFoo, ?IBar, ?IBaz]). guid_of False K = Some ?g1 \<longrightarrow> K = ?IFoo)
      \<longrightarrow> J = ?IFoo"
    and q: "QueryInterface pack (Some ?g1) (Some (Foreign 7)) ?u =
      Inr (S_OK, Some (Upcast J), ?u\<lparr>refStarted := True, refCountCom := refCountCom ?u + 1\<rparr>)"
    by blast
  from j uq have "J = ?IFoo" by (rule mp)
  with q have "QueryInterface pack (Some ?g1) (Some (Foreign 7)) ?u =
      Inr (S_OK, Some (Upcast ?IFoo), \<lparr>refCountCom = 3, refCountSharedPtr = 1, refStarted = True, refMutex = False, deleted = 0\<rparr>)"
    by simp
  with p d l example_guids(1) show ?thesis by auto
qed

text \<open>
  Claim C4. For a class that compiles, the pack that \<^verbatim>\<open>QueryInterface\<close> scans is
  \<^verbatim>\<open>IUnknown\<close> followed by the declared interfaces in their order, each with the
  identifier of its text. A lookup answers with the first interface in that order whose
  identifier equals the queried one, whatever follows it (also another interface with the
  same identifier), and takes a reference; when no interface has the identifier it returns
  \<^verbatim>\<open>E_NOINTERFACE\<close> and leaves the slot and the object unchanged.
\<close>

theorem QueryInterface_declaration_order:
  assumes "distinct (map iname (IUnknown # Interfaces))"
    and "\<forall>I\<in>set (IUnknown # Interfaces). guid_of sc I \<noteq> None"
  shows "\<exists>pack. UnknownImpl_pack sc Interfaces = Some pack \<and>
     list_all2 (\<lambda>I e. fst e = I \<and> guid_of sc I = Some (snd e)) (IUnknown # Interfaces)
       (fst pack # snd pack) \<and>
     (\<forall>u guid pv Is1 I Is2.
        live u \<and> IUnknown # Interfaces = Is1 @ I # Is2 \<and> guid_of sc I = Some guid \<and>
        (\<forall>J\<in>set Is1. guid_of sc J \<noteq> Some guid) \<longrightarrow>
        QueryInterface pack (Some guid) (Some pv) u =
          Inr (S_OK, Some (Upcast I),
               u\<lparr>refStarted := True, refCountCom := refCountCom u + 1\<rparr>)) \<and>
     (\<forall>u guid pv.
        deleted u = 0 \<and> (\<forall>I\<in>set (IUnknown # Interfaces). guid_of sc I \<noteq> Some guid) \<longrightarrow>
        QueryInterface pack (Some guid) (Some pv) u = Inr (E_NOINTERFACE, Some pv, u))"
proof -
  from UnknownImpl_pack_Some [OF assms] obtain pack
    where p: "UnknownImpl_pack sc Interfaces = Some pack" ..
  show ?thesis
  proof (intro exI conjI allI impI)
    show "UnknownImpl_pack sc Interfaces = Some pack" by (rule p)
    show "list_all2 (\<lambda>I e. fst e = I \<and> guid_of sc I = Some (snd e)) (IUnknown # Interfaces)
       (fst pack # snd pack)" by (rule class_entries_all2 [OF p])
  next
    fix u guid pv Is1 I Is2
    assume "live u \<and> IUnknown # Interfaces = Is1 @ I # Is2 \<and> guid_of sc I = Some guid \<and>
        (\<forall>J\<in>set Is1. guid_of sc J \<noteq> Some guid)"
    then show "QueryInterface pack (Some guid) (Some pv) u =
          Inr (S_OK, Some (Upcast I),
               u\<lparr>refStarted := True, refCountCom := refCountCom u + 1\<rparr>)"
      using class_first_match [OF p, of u Is1 I Is2 guid pv] by simp
  next
    fix u :: UnknownImpl and guid pv
    assume "deleted u = 0 \<and> (\<forall>I\<in>set (IUnknown # Interfaces). guid_of sc I \<noteq> Some guid)"
    then show "QueryInterface pack (Some guid) (Some pv) u = Inr (E_NOINTERFACE, Some pv, u)"
      using class_no_match [OF p, of u guid pv] by simp
  qed
qed

theorem QueryInterface_declaration_order_witness:
  "distinct (map iname [IUnknown, \<lparr>iname = ''IFoo'', iid_text = ''11111111-2222-3333-4444-555555555555''\<rparr>,
     \<lparr>iname = ''IBar'', iid_text = ''aaaaaaaa-BBBB-cccc-DDDD-eeeeeeeeeeee''\<rparr>,
     \<lparr>iname = ''IBaz'', iid_text = ''AAAAAAAA-bbbb-CCCC-dddd-EEEEEEEEEEEE''\<rparr>]) \<and>
   guid_of False IUnknown \<noteq> None \<and>
   guid_of False \<lparr>iname = ''IFoo'', iid_text = ''11111111-2222-3333-4444-555555555555''\<rparr> \<noteq> None \<and>
   guid_of False \<lparr>iname = ''IBar'', iid_text = ''aaaaaaaa-BBBB-cccc-DDDD-eeeeeeeeeeee''\<rparr> \<noteq> None \<and>
   guid_of False \<lparr>iname = ''IBaz'', iid_text = ''AAAAAAAA-bbbb-CCCC-dddd-EEEEEEEEEEEE''\<rparr> \<noteq> None \<and>
   (\<exists>pack. UnknownImpl_pack False [\<lparr>iname = ''IFoo'', iid_text = ''11111111-2222-3333-4444-555555555555''\<rparr>,
       \<lparr>iname = ''IBar'', iid_text = ''aaaaaaaa-BBBB-cccc-DDDD-eeeeeeeeeeee''\<rparr>,
       \<lparr>iname = ''IBaz'', iid_text = ''AAAAAAAA-bbbb-CCCC-dddd-EEEEEEEEEEEE''\<rparr>] = Some pack \<and>
     QueryInterface pack
       (Some \<lparr>Data1 = 0xAAAAAAAA, Data2 = 0xBBBB, Data3 = 0xCCCC, Data4 = [0xDD, 0xDD, 0xEE, 0xEE, 0xEE, 0xEE, 0xEE, 0xEE]\<rparr>)
       (Some (Foreign 7))
       \<lparr>refCountCom = 2, refCountSharedPtr = 1, refStarted = True, refMutex = False, deleted = 0\<rparr> =
     Inr (S_OK, Some (Upcast \<lparr>iname = ''IBar'', iid_text = ''aaaaaaaa-BBBB-cccc-DDDD-eeeeeeeeeeee''\<rparr>),
       \<lparr>refCountCom = 3, refCountSharedPtr = 1, refStarted = True, refMutex = False, deleted = 0\<rparr>) \<and>
     QueryInterface pack
       (Some (\<lparr>Data1 = 0xAAAAAAAA, Data2 = 0xBBBB, Data3 = 0xCCCC, Data4 = [0xDD, 0xDD, 0xEE, 0xEE, 0xEE, 0xEE, 0xEE, 0xEE]\<rparr>\<lparr>Data1 := 1\<rparr>))
       (Some (Foreign 7))
       \<lparr>refCountCom = 2, refCountSharedPtr = 1, refStarted = True, refMutex = False, deleted = 0\<rparr> =
     Inr (E_NOINTERFACE, Some (Foreign 7),
       \<lparr>refCountCom = 2, refCountSharedPtr = 1, refStarted = True, refMutex = False, deleted = 0\<rparr>))"
proof -
  let ?IFoo = "\<lparr>iname = ''IFoo'', iid_text = ''11111111-2222-3333-4444-555555555555''\<rparr>"
  let ?IBar = "\<lparr>iname = ''IBar'', iid_text = ''aaaaaaaa-BBBB-cccc-DDDD-eeeeeeeeeeee''\<rparr>"
  let ?IBaz = "\<lparr>iname = ''IBaz'', iid_text = ''AAAAAAAA-bbbb-CCCC-dddd-EEEEEEEEEEEE''\<rparr>"
  let ?g1 = "\<lparr>Data1 = 0x11111111, Data2 = 0x2222, Data3 = 0x3333, Data4 = [0x44, 0x44, 0x55, 0x55, 0x55, 0x55, 0x55, 0x55]\<rparr>"
  let ?g2 = "\<lparr>Data1 = 0xAAAAAAAA, Data2 = 0xBBBB, Data3 = 0xCCCC, Data4 = [0xDD, 0xDD, 0xEE, 0xEE, 0xEE, 0xEE, 0xEE, 0xEE]\<rparr>"
  let ?u = "\<lparr>refCountCom = 2, refCountSharedPtr = 1, refStarted = True, refMutex = False, deleted = 0\<rparr>"
  have d: "distinct (map iname (IUnknown # [?IFoo, ?IBar, ?IBaz]))"
    by (simp add: IUnknown_def)
  have v: "\<forall>I\<in>set (IUnknown # [?IFoo, ?IBar, ?IBaz]). guid_of False I \<noteq> None"
    by (simp add: guid_of_IUnknown example_guids)
  have l: "live ?u"
    by (simp add: live_def INT_MAX_def)
  from QueryInterface_declaration_order [OF d v] obtain pack
    where all: "UnknownImpl_pack False [?IFoo, ?IBar, ?IBaz] = Some pack \<and>
     list_all2 (\<lambda>I e. fst e = I \<and> guid_of False I = Some (snd e))
       (IUnknown # [?IFoo, ?IBar, ?IBaz]) (fst pack # snd pack) \<and>
     (\<forall>u guid pv Is1 I Is2.
        live u \<and> IUnknown # [?IFoo, ?IBar, ?IBaz] = Is1 @ I # Is2 \<and>
        guid_of False I = Some guid \<and> (\<forall>J\<in>set Is1. guid_of False J \<noteq> Some guid) \<longrightarrow>
        QueryInterface pack (Some guid) (Some pv) u =
          Inr (S_OK, Some (Upcast I),
               u\<lparr>refStarted := True, refCountCom := refCountCom u + 1\<rparr>)) \<and>
     (\<forall>u guid pv.
        deleted u = 0 \<and>
        (\<forall>I\<in>set (IUnknown # [?IFoo, ?IBar, ?IBaz]). guid_of False I \<noteq> Some guid) \<longrightarrow>
        QueryInterface pack (Some guid) (Some pv) u = Inr (E_NOINTERFACE, Some pv, u))" ..
  from all have p: "UnknownImpl_pack False [?IFoo, ?IBar, ?IBaz] = Some pack"
    by (rule conjunct1)
  from all have fm: "\<forall>u guid pv Is1 I Is2.
        live u \<and> IUnknown # [?IFoo, ?IBar, ?IBaz] = Is1 @ I # Is2 \<and>
        guid_of False I = Some guid \<and> (\<forall>J\<in>set Is1. guid_of False J \<noteq> Some guid) \<longrightarrow>
        QueryInterface pack (Some guid) (Some pv) u =
          Inr (S_OK, Some (Upcast I),
               u\<lparr>refStarted := True, refCountCom := refCountCom u + 1\<rparr>)"
    by (rule conjunct2 [THEN conjunct2, THEN conjunct1])
  from all have nm: "\<forall>u guid pv.
        deleted u = 0 \<and>
        (\<forall>I\<in>set (IUnknown # [?IFoo, ?IBar, ?IBaz]). guid_of False I \<noteq> Some guid) \<longrightarrow>
        QueryInterface pack (Some guid) (Some pv) u = Inr (E_NOINTERFACE, Some pv, u)"
    by (rule conjunct2 [THEN conjunct2, THEN conjunct2])
  from fm have "live ?u \<and> IUnknown # [?IFoo, ?IBar, ?IBaz] = [IUnknown, ?IFoo] @ ?IBar # [?IBaz] \<and>
        guid_of False ?IBar = Some ?g2 \<and>
        (\<forall>J\<in>set [IUnknown, ?IFoo]. guid_of False J \<noteq> Some ?g2) \<longrightarrow>
        QueryInterface pack (Some ?g2) (Some (Foreign 7)) ?u =
          Inr (S_OK, Some (Upcast ?IBar),
               ?u\<lparr>refStarted := True, refCountCom := refCountCom ?u + 1\<rparr>)"
    by (elim allE) assumption
  with l have a: "QueryInterface pack (Some ?g2) (Some (Foreign 7)) ?u =
      Inr (S_OK, Some (Upcast ?IBar), \<lparr>refCountCom = 3, refCountSharedPtr = 1, refStarted = True, refMutex = False, deleted = 0\<rparr>)"
    by (simp add: guid_of_IUnknown example_guids IID_IUnknown_def)
  from nm have "deleted ?u = 0 \<and>
        (\<forall>I\<in>set (IUnknown # [?IFoo, ?IBar, ?IBaz]).
           guid_of False I \<noteq> Some (?g2\<lparr>Data1 := 1\<rparr>)) \<longrightarrow>
        QueryInterface pack (Some (?g2\<lparr>Data1 := 1\<rparr>)) (Some (Foreign 7)) ?u =
          Inr (E_NOINTERFACE, Some (Foreign 7), ?u)"
    by (elim allE) assumption
  then have b: "QueryInterface pack (Some (?g2\<lparr>Data1 := 1\<rparr>)) (Some (Foreign 7)) ?u =
          Inr (E_NOINTERFACE, Some (Foreign 7), ?u)"
    by (simp add: guid_of_IUnknown example_guids IID_IUnknown_def)
  from p a b d show ?thesis
    by (simp add: guid_of_IUnknown example_guids)
qed

section \<open>Reference counting: results\<close>

lemmas object_defs = AddRef_def Release_def Release_locked_def Release_enter_def
  Release_return_def Release_unique_guard_def shared_ptr_def shared_ptr_deleter_def
  shared_ptr_deleter_enter_def TryDelete_def
  scoped_lock_def delete_guard_def assertAddReference_def int_add_def bindF_def
  INT_MAX_def INT_MIN_def Let_def

text \<open>
  Claim C2, as stated, fails: with one external reference and one shared handle out,
  \<^verbatim>\<open>Release\<close> returns 0 and the object is not deleted.
\<close>

theorem Release_zero_shared_outstanding:
  "Release \<lparr>refCountCom = 1, refCountSharedPtr = 1, refStarted = True, refMutex = False,
            deleted = 0\<rparr> =
     Inr (0, \<lparr>refCountCom = 0, refCountSharedPtr = 1, refStarted = True, refMutex = False,
              deleted = 0\<rparr>)"
  by (simp add: object_defs)

text \<open>
  Claim C2, amended. In every state in which \<^verbatim>\<open>Release\<close> is legally called (live
  object, free mutex, started, \<^verbatim>\<open>refCountCom > 0\<close>) the locked part of the call
  decrements \<^verbatim>\<open>refCountCom\<close> and deletes the object exactly when the decrement leaves 0
  and \<^verbatim>\<open>refCountSharedPtr\<close> is 0 as well. When the decrement leaves 0 the call returns
  the hard-coded 0, also when shared handles keep the object alive. When it leaves a
  positive count the call returns that count, provided nothing changes the object before
  \<^verbatim>\<open>return refCountCom\<close> reads it; with the \<^verbatim>\<open>std::unique_ptr\<close> guard the read is
  done under the mutex.
\<close>

theorem Release_remaining_count:
  assumes "deleted u = 0" and "\<not> refMutex u" and "refStarted u" and "0 < refCountCom u"
  shows "\<exists>u'. u' = u\<lparr>refCountCom := refCountCom u - 1,
            deleted := (if refCountCom u - 1 = 0 \<and> refCountSharedPtr u = 0 then 1 else 0)\<rparr> \<and>
     Release_locked u = Inr (if refCountCom u = 1 then Some 0 else None, u') \<and>
     (refCountCom u \<noteq> 1 \<longrightarrow> Release_return u' = Inr (refCountCom u - 1)) \<and>
     Release u = Inr (refCountCom u - 1, u') \<and>
     Release_unique_guard u = Inr (refCountCom u - 1, u')"
  using assms by (cases u) (auto simp: object_defs)

theorem Release_remaining_count_witness:
  "Release_locked \<lparr>refCountCom = 2, refCountSharedPtr = 1, refStarted = True, refMutex = False, deleted = 0\<rparr> =
     Inr (None, \<lparr>refCountCom = 1, refCountSharedPtr = 1, refStarted = True, refMutex = False,
       deleted = 0\<rparr>) \<and>
   Release \<lparr>refCountCom = 2, refCountSharedPtr = 1, refStarted = True, refMutex = False, deleted = 0\<rparr> =
     Inr (1, \<lparr>refCountCom = 1, refCountSharedPtr = 1, refStarted = True, refMutex = False,
       deleted = 0\<rparr>) \<and>
   Release \<lparr>refCountCom = 1, refCountSharedPtr = 0, refStarted = True, refMutex = False,
       deleted = 0\<rparr> =
     Inr (0, \<lparr>refCountCom = 0, refCountSharedPtr = 0, refStarted = True, refMutex = False,
       deleted = 1\<rparr>)"
  using Release_remaining_count [of "\<lparr>refCountCom = 2, refCountSharedPtr = 1, refStarted = True, refMutex = False, deleted = 0\<rparr>"]
    Release_remaining_count [of "\<lparr>refCountCom = 1, refCountSharedPtr = 0, refStarted = True,
      refMutex = False, deleted = 0\<rparr>"]
  by simp

text \<open>
  What the amended claim leaves open: with the guard deleted before
  \<^verbatim>\<open>return refCountCom\<close>, a \<^verbatim>\<open>Release\<close> of another thread can run in between. The
  first call then returns 0 although its decrement left 1, or reads the member of an
  object that the other call has deleted.
\<close>

lemma Release_return_after_other_release:
  "Release_locked \<lparr>refCountCom = 2, refCountSharedPtr = 1, refStarted = True, refMutex = False,
       deleted = 0\<rparr> =
     Inr (None, \<lparr>refCountCom = 1, refCountSharedPtr = 1, refStarted = True, refMutex = False,
       deleted = 0\<rparr>) \<and>
   Release_locked \<lparr>refCountCom = 1, refCountSharedPtr = 1, refStarted = True, refMutex = False,
       deleted = 0\<rparr> =
     Inr (Some 0, \<lparr>refCountCom = 0, refCountSharedPtr = 1, refStarted = True, refMutex = False,
       deleted = 0\<rparr>) \<and>
   Release_return \<lparr>refCountCom = 0, refCountSharedPtr = 1, refStarted = True, refMutex = False,
       deleted = 0\<rparr> = Inr 0"
  by (simp add: object_defs)

lemma Release_return_after_delete:
  "Release_locked \<lparr>refCountCom = 2, refCountSharedPtr = 0, refStarted = True, refMutex = False,
       deleted = 0\<rparr> =
     Inr (None, \<lparr>refCountCom = 1, refCountSharedPtr = 0, refStarted = True, refMutex = False,
       deleted = 0\<rparr>) \<and>
   Release_locked \<lparr>refCountCom = 1, refCountSharedPtr = 0, refStarted = True, refMutex = False,
       deleted = 0\<rparr> =
     Inr (Some 0, \<lparr>refCountCom = 0, refCountSharedPtr = 0, refStarted = True, refMutex = False,
       deleted = 1\<rparr>) \<and>
   Release_return \<lparr>refCountCom = 0, refCountSharedPtr = 0, refStarted = True, refMutex = False,
       deleted = 1\<rparr> = Inl UseAfterDelete"
  by (simp add: object_defs)

text \<open>
  Claim C9, as stated, fails: a class with two interfaces of the same identifier
  compiles, and a lookup of that identifier answers with the first of them.
\<close>

theorem colliding_identifiers_accepted:
  "UnknownImpl_pack True
     [\<lparr>iname = ''IFoo'', iid_text = ''11111111-2222-3333-4444-555555555555''\<rparr>,
      \<lparr>iname = ''IBar'', iid_text = ''11111111-2222-3333-4444-555555555555''\<rparr>] =
     Some ((IUnknown, IID_IUnknown),
       [(\<lparr>iname = ''IFoo'', iid_text = ''11111111-2222-3333-4444-555555555555''\<rparr>,
         \<lparr>Data1 = 0x11111111, Data2 = 0x2222, Data3 = 0x3333,
          Data4 = [0x44, 0x44, 0x55, 0x55, 0x55, 0x55, 0x55, 0x55]\<rparr>),
        (\<lparr>iname = ''IBar'', iid_text = ''11111111-2222-3333-4444-555555555555''\<rparr>,
         \<lparr>Data1 = 0x11111111, Data2 = 0x2222, Data3 = 0x3333,
          Data4 = [0x44, 0x44, 0x55, 0x55, 0x55, 0x55, 0x55, 0x55]\<rparr>)]) \<and>
   QueryInterface ((IUnknown, IID_IUnknown),
       [(\<lparr>iname = ''IFoo'', iid_text = ''11111111-2222-3333-4444-555555555555''\<rparr>,
         \<lparr>Data1 = 0x11111111, Data2 = 0x2222, Data3 = 0x3333,
          Data4 = [0x44, 0x44, 0x55, 0x55, 0x55, 0x55, 0x55, 0x55]\<rparr>),
        (\<lparr>iname = ''IBar'', iid_text = ''11111111-2222-3333-4444-555555555555''\<rparr>,
         \<lparr>Data1 = 0x11111111, Data2 = 0x2222, Data3 = 0x3333,
          Data4 = [0x44, 0x44, 0x55, 0x55, 0x55, 0x55, 0x55, 0x55]\<rparr>)])
     (Some \<lparr>Data1 = 0x11111111, Data2 = 0x2222, Data3 = 0x3333,
          Data4 = [0x44, 0x44, 0x55, 0x55, 0x55, 0x55, 0x55, 0x55]\<rparr>)
     (Some Nullptr) UnknownImpl_ctor =
     Inr (S_OK,
          Some (Upcast \<lparr>iname = ''IFoo'', iid_text = ''11111111-2222-3333-4444-555555555555''\<rparr>),
          \<lparr>refCountCom = 1, refCountSharedPtr = 0, refStarted = True, refMutex = False,
           deleted = 0\<rparr>)"
  by code_simp

text \<open>
  Claim C9, amended. A class compiles whenever its interface types are distinct and
  every identifier text parses, whether or not two identifiers coincide; its pack lists
  the interfaces in declaration order, and a lookup answers with the first entry of the
  pack that has the queried identifier.
\<close>

theorem colliding_identifiers_first_match:
  assumes "distinct (map iname (IUnknown # Interfaces))"
    and "\<forall>I\<in>set (IUnknown # Interfaces). guid_of sc I \<noteq> None"
  shows "\<exists>pack. UnknownImpl_pack sc Interfaces = Some pack \<and>
     map fst (fst pack # snd pack) = IUnknown # Interfaces \<and>
     (\<forall>u guid pv pre e post.
        live u \<and> fst pack # snd pack = pre @ e # post \<and> (\<forall>x\<in>set pre. snd x \<noteq> guid) \<and>
        snd e = guid \<longrightarrow>
        QueryInterface pack (Some guid) (Some pv) u =
          Inr (S_OK, Some (Upcast (fst e)),
               u\<lparr>refStarted := True, refCountCom := refCountCom u + 1\<rparr>))"
proof -
  from UnknownImpl_pack_Some [OF assms] obtain pack
    where p: "UnknownImpl_pack sc Interfaces = Some pack" ..
  from p have o: "map fst (fst pack # snd pack) = IUnknown # Interfaces"
    by (rule UnknownImpl_pack_order)
  show ?thesis
  proof (intro exI conjI allI impI)
    show "UnknownImpl_pack sc Interfaces = Some pack" by (rule p)
    show "map fst (fst pack # snd pack) = IUnknown # Interfaces" by (rule o)
  next
    fix u guid pv pre e post
    assume "live u \<and> fst pack # snd pack = pre @ e # post \<and>
      (\<forall>x\<in>set pre. snd x \<noteq> guid) \<and> snd e = guid"
    then show "QueryInterface pack (Some guid) (Some pv) u =
        Inr (S_OK, Some (Upcast (fst e)),
             u\<lparr>refStarted := True, refCountCom := refCountCom u + 1\<rparr>)"
      using QueryInterface_first_match [of u pack pre e post guid pv] by simp
  qed
qed

theorem colliding_identifiers_first_match_witness:
  "distinct (map iname [IUnknown, \<lparr>iname = ''IFoo'', iid_text = PI_IUNKNOWN_IID\<rparr>]) \<and>
   guid_of False IUnknown \<noteq> None \<and>
   guid_of False \<lparr>iname = ''IFoo'', iid_text = PI_IUNKNOWN_IID\<rparr> \<noteq> None \<and>
   (\<exists>pack. UnknownImpl_pack False [\<lparr>iname = ''IFoo'', iid_text = PI_IUNKNOWN_IID\<rparr>] = Some pack \<and>
      map fst (fst pack # snd pack) =
        [IUnknown, \<lparr>iname = ''IFoo'', iid_text = PI_IUNKNOWN_IID\<rparr>] \<and>
      QueryInterface pack (Some IID_IUnknown) (Some Nullptr) UnknownImpl_ctor =
        Inr (S_OK, Some (Upcast IUnknown),
             \<lparr>refCountCom = 1, refCountSharedPtr = 0, refStarted = True, refMutex = False,
              deleted = 0\<rparr>))"
proof -
  let ?IFoo = "\<lparr>iname = ''IFoo'', iid_text = PI_IUNKNOWN_IID\<rparr>"
  have g: "guid_of False ?IFoo = Some IID_IUnknown"
    using guid_of_IUnknown [of False] by (simp add: guid_of_def IUnknown_def)
  have d: "distinct (map iname (IUnknown # [?IFoo]))"
    by (simp add: IUnknown_def)
  have v: "\<forall>I\<in>set (IUnknown # [?IFoo]). guid_of False I \<noteq> None"
    using g by (simp add: guid_of_IUnknown)
  have l: "live UnknownImpl_ctor"
    by (simp add: live_def UnknownImpl_ctor_def INT_MAX_def)
  from colliding_identifiers_first_match [OF d v] obtain pack
    where all: "UnknownImpl_pack False [?IFoo] = Some pack \<and>
      map fst (fst pack # snd pack) = IUnknown # [?IFoo] \<and>
      (\<forall>u guid pv pre e post.
        live u \<and> fst pack # snd pack = pre @ e # post \<and> (\<forall>x\<in>set pre. snd x \<noteq> guid) \<and>
        snd e = guid \<longrightarrow>
        QueryInterface pack (Some guid) (Some pv) u =
          Inr (S_OK, Some (Upcast (fst e)),
               u\<lparr>refStarted := True, refCountCom := refCountCom u + 1\<rparr>))" ..
  from all have p: "UnknownImpl_pack False [?IFoo] = Some pack"
    by (rule conjunct1)
  from all have o: "map fst (fst pack # snd pack) = IUnknown # [?IFoo]"
    by (rule conjunct2 [THEN conjunct1])
  from all have q: "\<forall>u guid pv pre e post.
        live u \<and> fst pack # snd pack = pre @ e # post \<and> (\<forall>x\<in>set pre. snd x \<noteq> guid) \<and>
        snd e = guid \<longrightarrow>
        QueryInterface pack (Some guid) (Some pv) u =
          Inr (S_OK, Some (Upcast (fst e)),
               u\<lparr>refStarted := True, refCountCom := refCountCom u + 1\<rparr>)"
    by (rule conjunct2 [THEN conjunct2])
  from p d have pk: "pack = ((IUnknown, IID_IUnknown), [(?IFoo, IID_IUnknown)])"
    by (simp add: UnknownImpl_pack_def entry_of_def guid_of_IUnknown g)
  from q have "live UnknownImpl_ctor \<and>
      fst pack # snd pack = [] @ (IUnknown, IID_IUnknown) # [(?IFoo, IID_IUnknown)] \<and>
      (\<forall>x\<in>set ([] :: entry list). snd x \<noteq> IID_IUnknown) \<and>
      snd (IUnknown, IID_IUnknown) = IID_IUnknown \<longrightarrow>
      QueryInterface pack (Some IID_IUnknown) (Some Nullptr) UnknownImpl_ctor =
      Inr (S_OK, Some (Upcast (fst (IUnknown, IID_IUnknown))),
           UnknownImpl_ctor\<lparr>refStarted := True, refCountCom := refCountCom UnknownImpl_ctor + 1\<rparr>)"
    by (elim allE) assumption
  with l pk have "QueryInterface pack (Some IID_IUnknown) (Some Nullptr) UnknownImpl_ctor =
      Inr (S_OK, Some (Upcast (fst (IUnknown, IID_IUnknown))),
           UnknownImpl_ctor\<lparr>refStarted := True, refCountCom := refCountCom UnknownImpl_ctor + 1\<rparr>)"
    by simp
  then have "QueryInterface pack (Some IID_IUnknown) (Some Nullptr) UnknownImpl_ctor =
        Inr (S_OK, Some (Upcast IUnknown),
             \<lparr>refCountCom = 1, refCountSharedPtr = 0, refStarted = True, refMutex = False,
              deleted = 0\<rparr>)"
    by (simp add: UnknownImpl_ctor_def)
  with p o d g show ?thesis
    by (simp add: guid_of_IUnknown)
qed

lemma AddRef_effect:
  "AddRef u = Inr (n, u') \<Longrightarrow> effect pack CallAddRef u u' \<and> n = refCountCom u'"
  by (auto simp: effect_def acquires_def releases_def object_defs split: if_splits)

lemma Release_effect:
  "Release_locked u = Inr (r, u') \<Longrightarrow> effect pack CallRelease u u'"
  by (auto simp: effect_def acquires_def releases_def object_defs split: if_splits)

lemma shared_ptr_effect:
  "shared_ptr u = Inr u' \<Longrightarrow> effect pack CallSharedPtr u u'"
  by (auto simp: effect_def acquires_def releases_def object_defs split: if_splits)

lemma shared_ptr_deleter_effect:
  "shared_ptr_deleter u = Inr u' \<Longrightarrow> effect pack CallSharedPtrDeleter u u'"
  by (auto simp: effect_def acquires_def releases_def object_defs split: if_splits)


lemma QueryInterface_effect:
  assumes "QueryInterface pack pguid ppvObject u = Inr (r, slot, u')"
  shows "effect pack (CallQueryInterface pguid ppvObject) u u'"
proof -
  from assms have alive: "deleted u = 0"
    by (auto simp: QueryInterface_def split: if_splits)
  have same: "effect pack c u u" if "com_delta pack c = 0" "shared_delta c = 0" "\<not> releases c"
    for c using that alive by (auto simp: effect_def acquires_def releases_def)
  show ?thesis
  proof (cases pguid)
    case None
    with assms alive have "u' = u" by (simp add: QueryInterface_def)
    with None show ?thesis by (simp add: same releases_def)
  next
    case (Some guid)
    note g = this
    show ?thesis
    proof (cases ppvObject)
      case None
      with assms alive g have "u' = u" by (simp add: QueryInterface_def)
      with None g show ?thesis by (simp add: same releases_def)
    next
      case (Some pv)
      show ?thesis
      proof (cases "guid \<in> snd ` set (fst pack # snd pack)")
        case False
        then have "\<forall>x\<in>set (fst pack # snd pack). snd x \<noteq> guid" by blast
        from QueryInterface_no_match [OF alive this, of pv] assms g Some
        have "u' = u" by simp
        with False g Some show ?thesis by (simp add: same releases_def)
      next
        case True
        then have "\<exists>x\<in>set (fst pack # snd pack). snd x = guid" by blast
        then obtain pre e post where sp: "fst pack # snd pack = pre @ e # post" "snd e = guid"
          "\<forall>x\<in>set pre. snd x \<noteq> guid"
          using split_list_first_prop [of "fst pack # snd pack" "\<lambda>x. snd x = guid"] by blast
        from assms g Some alive
        have "bindF (bindF (AddRef u) (\<lambda>(n, u1). Inr (True, Upcast (fst e), u1)))
            (\<lambda>(found, pv, u1). if found then Inr (S_OK, Some pv, u1)
               else Inr (E_NOINTERFACE, Some pv, u1)) = Inr (r, slot, u')"
          by (simp add: QueryInterface_def QueryInterfaceImpl_first_match [OF sp(1) sp(3) sp(2)])
        then obtain n where "AddRef u = Inr (n, u')"
          by (auto simp: bindF_def split: sum.splits)
        from AddRef_effect [OF this, of pack] have "effect pack CallAddRef u u'" by simp
        with True g Some show ?thesis
          by (simp add: effect_def acquires_def releases_def)
      qed
    qed
  qed
qed

lemma step_effect: "step pack c u = Inr u' \<Longrightarrow> effect pack c u u'"
proof (cases c)
  case CallAddRef
  assume "step pack c u = Inr u'"
  with CallAddRef obtain n where "AddRef u = Inr (n, u')"
    by (auto simp: bindF_def split: sum.splits)
  from AddRef_effect [OF this] CallAddRef show ?thesis by simp
next
  case CallRelease
  assume "step pack c u = Inr u'"
  with CallRelease obtain r where "Release_locked u = Inr (r, u')"
    by (auto simp: bindF_def split: sum.splits)
  from Release_effect [OF this] CallRelease show ?thesis by simp
next
  case CallSharedPtr
  assume "step pack c u = Inr u'"
  with CallSharedPtr show ?thesis by (simp add: shared_ptr_effect)
next
  case CallSharedPtrDeleter
  assume "step pack c u = Inr u'"
  with CallSharedPtrDeleter show ?thesis by (simp add: shared_ptr_deleter_effect)
next
  case (CallQueryInterface pguid ppvObject)
  assume "step pack c u = Inr u'"
  with CallQueryInterface obtain r slot
    where "QueryInterface pack pguid ppvObject u = Inr (r, slot, u')"
    by (auto simp: bindF_def split: sum.splits)
  from QueryInterface_effect [OF this] CallQueryInterface show ?thesis by simp
qed

lemma delta_cases:
  "(c = CallRelease \<and> com_delta pack c = - 1 \<and> shared_delta c = 0) \<or>
   (c = CallSharedPtrDeleter \<and> com_delta pack c = 0 \<and> shared_delta c = - 1) \<or>
   (\<not> releases c \<and> com_delta pack c = 1 \<and> shared_delta c = 0) \<or>
   (\<not> releases c \<and> com_delta pack c = 0 \<and> shared_delta c = 1) \<or>
   (\<not> releases c \<and> com_delta pack c = 0 \<and> shared_delta c = 0)"
  by (cases "(pack, c)" rule: com_delta.cases) (auto simp: releases_def)

lemma effect_invariant:
  assumes "effect pack c u u'" and "object_invariant u"
  shows "object_invariant u'"
  using delta_cases [of c pack] assms
  by (elim disjE) (auto simp: effect_def object_invariant_def acquires_def releases_def)


lemma run_invariant:
  "run pack cs u = Inr u' \<Longrightarrow> object_invariant u \<Longrightarrow>
   object_invariant u' \<and>
   refCountCom u' = refCountCom u + sum_list (map (com_delta pack) cs) \<and>
   refCountSharedPtr u' = refCountSharedPtr u + sum_list (map shared_delta cs) \<and>
   (refStarted u' \<longleftrightarrow> refStarted u \<or> (\<exists>c\<in>set cs. acquires pack c))"
proof (induction cs arbitrary: u)
  case Nil
  then show ?case by simp
next
  case (Cons c cs)
  from Cons.prems(1) obtain u1 where s: "step pack c u = Inr u1" and r: "run pack cs u1 = Inr u'"
    by (auto simp: bindF_def split: sum.splits)
  from step_effect [OF s] have e: "effect pack c u u1" .
  from effect_invariant [OF e Cons.prems(2)] have i: "object_invariant u1" .
  from Cons.IH [OF r i] e show ?case
    by (auto simp: effect_def)
qed

lemma ctor_invariant: "object_invariant UnknownImpl_ctor"
  by (simp add: object_invariant_def UnknownImpl_ctor_def)




lemma step_deleted: "deleted u \<noteq> 0 \<Longrightarrow> step pack c u = Inl UseAfterDelete"
  by (cases c) (simp_all add: QueryInterface_def object_defs)

text \<open>
  Claim C8. Every state that a sequence of calls reaches from the constructed object
  satisfies: while \<^verbatim>\<open>refStarted\<close> is false both counters are 0 (and nothing has been
  deleted); once \<^verbatim>\<open>refStarted\<close> is true every further call that returns leaves it
  true; a started object that has not been deleted has
  \<^verbatim>\<open>refCountCom + refCountSharedPtr > 0\<close>; the counters are never negative; and a
  deleted object has been deleted once, with both counters 0, and admits no further call.
\<close>

theorem reachable_state_invariant:
  assumes "run pack cs UnknownImpl_ctor = Inr u"
  shows "(\<not> refStarted u \<longrightarrow> refCountCom u = 0 \<and> refCountSharedPtr u = 0 \<and> deleted u = 0) \<and>
    (refStarted u \<and> deleted u = 0 \<longrightarrow> 0 < refCountCom u + refCountSharedPtr u) \<and>
    0 \<le> refCountCom u \<and> 0 \<le> refCountSharedPtr u \<and>
    (\<forall>c u'. refStarted u \<and> step pack c u = Inr u' \<longrightarrow> refStarted u') \<and>
    (deleted u \<noteq> 0 \<longrightarrow>
       deleted u = 1 \<and> refCountCom u = 0 \<and> refCountSharedPtr u = 0 \<and>
       (\<forall>c. step pack c u = Inl UseAfterDelete))"
proof -
  from run_invariant [OF assms ctor_invariant] have i: "object_invariant u" by simp
  have keep: "refStarted u'" if "refStarted u" "step pack c u = Inr u'" for c u'
    using step_effect [OF that(2)] that(1) by (simp add: effect_def)
  from i keep step_deleted [of u pack] show ?thesis
    by (auto simp: object_invariant_def)
qed

theorem reachable_state_invariant_witness:
  "run ((IUnknown, IID_IUnknown), []) [CallAddRef, CallSharedPtr, CallRelease] UnknownImpl_ctor =
     Inr \<lparr>refCountCom = 0, refCountSharedPtr = 1, refStarted = True, refMutex = False,
          deleted = 0\<rparr> \<and>
   step ((IUnknown, IID_IUnknown), []) CallSharedPtr
     \<lparr>refCountCom = 0, refCountSharedPtr = 1, refStarted = True, refMutex = False,
      deleted = 0\<rparr> =
     Inr \<lparr>refCountCom = 0, refCountSharedPtr = 2, refStarted = True, refMutex = False,
          deleted = 0\<rparr> \<and>
   (0::int) < 0 + 1"
proof -
  have r: "run ((IUnknown, IID_IUnknown), []) [CallAddRef, CallSharedPtr, CallRelease]
      UnknownImpl_ctor =
     Inr \<lparr>refCountCom = 0, refCountSharedPtr = 1, refStarted = True, refMutex = False,
          deleted = 0\<rparr>"
    by (simp add: UnknownImpl_ctor_def object_defs)
  have s: "step ((IUnknown, IID_IUnknown), []) CallSharedPtr
     \<lparr>refCountCom = 0, refCountSharedPtr = 1, refStarted = True, refMutex = False,
      deleted = 0\<rparr> =
     Inr \<lparr>refCountCom = 0, refCountSharedPtr = 2, refStarted = True, refMutex = False,
          deleted = 0\<rparr>"
    by (simp add: object_defs)
  from reachable_state_invariant [OF r] r s show ?thesis by simp
qed










section \<open>The parser: results\<close>

lemma hex2bin_table:
  "\<forall>n\<in>{0..<103}. hex2bin ! n =
     (if 48 \<le> n \<and> n \<le> 57 then of_nat (n - 48)
      else if 97 \<le> n \<and> n \<le> 102 then of_nat (10 + (n - 97))
      else if 65 \<le> n \<and> n \<le> 70 then of_nat (10 + (n - 65))
      else 99)"
  by code_simp

lemma length_hex2bin: "length hex2bin = 103"
  by (simp add: hex2bin_def)

lemma hex2bin_at_digit:
  assumes "is_hex_digit c"
  shows "char_to_int sc c \<le> 102 \<and> hex2bin_at (char_to_int sc c) = Inr (of_nat (digit_value c)) \<and>
    digit_value c < 16"
proof -
  let ?n = "of_char c :: nat"
  from assms have r: "48 \<le> ?n \<and> ?n \<le> 57 \<or> 97 \<le> ?n \<and> ?n \<le> 102 \<or> 65 \<le> ?n \<and> ?n \<le> 70"
    by (auto simp: is_hex_digit_def char_in_def)
  then have lt: "?n < 103" by auto
  then have ci: "char_to_int sc c = int ?n"
    by (simp add: char_to_int_def)
  from lt hex2bin_table have "hex2bin ! ?n =
     (if 48 \<le> ?n \<and> ?n \<le> 57 then of_nat (?n - 48)
      else if 97 \<le> ?n \<and> ?n \<le> 102 then of_nat (10 + (?n - 97))
      else if 65 \<le> ?n \<and> ?n \<le> 70 then of_nat (10 + (?n - 65))
      else 99)"
    by simp
  with r have v: "hex2bin ! ?n = of_nat (digit_value c)"
    by (auto simp: digit_value_def char_in_def)
  from r have d: "digit_value c < 16"
    by (auto simp: digit_value_def char_in_def)
  from ci lt v d show ?thesis
    by (simp add: hex2bin_at_def length_hex2bin)
qed

lemma hex2bin_table_gt:
  "\<forall>n\<in>{0..<103}. hex2bin ! n > 15 \<longleftrightarrow>
     \<not> (48 \<le> n \<and> n \<le> 57 \<or> 97 \<le> n \<and> n \<le> 102 \<or> 65 \<le> n \<and> n \<le> 70)"
  by code_simp

lemma canonical_text_iff: "canonical_text s \<longleftrightarrow> (\<forall>i<37. position_ok s i)"
proof
  assume c: "canonical_text s"
  show "\<forall>i<37. position_ok s i"
  proof (intro allI impI)
    fix i :: nat
    assume "i < 37"
    then have "i = 36 \<or> i < 36" by arith
    with c show "position_ok s i"
      by (auto simp: canonical_text_def position_ok_def)
  qed
next
  assume a: "\<forall>i<37. position_ok s i"
  then have "position_ok s 36" by simp
  then have l: "length s = 36" by (simp add: position_ok_def)
  have "if dash_position i then s ! i = CHR ''-'' else is_hex_digit (s ! i)" if "i < 36" for i
  proof -
    from that a have "position_ok s i" by simp
    with that show ?thesis by (simp add: position_ok_def)
  qed
  with l show "canonical_text s" by (simp add: canonical_text_def)
qed

text \<open>The test of one character at a hex-digit position.\<close>

lemma hex_test:
  assumes "sc \<longrightarrow> (of_char c :: nat) < 128"
  shows "(if char_to_int sc c > char_to_int sc CHR ''f'' then Inr False
          else bindF (hex2bin_at (char_to_int sc c)) (\<lambda>v. if v > 15 then Inr False else Inr True)) =
         Inr (is_hex_digit c)"
proof -
  let ?n = "of_char c :: nat"
  from assms have ci: "char_to_int sc c = int ?n"
    by (auto simp: char_to_int_def)
  have f: "char_to_int sc CHR ''f'' = 102"
    by (simp add: char_to_int_def)
  show ?thesis
  proof (cases "?n < 103")
    case True
    with hex2bin_table_gt have "hex2bin ! ?n > 15 \<longleftrightarrow>
      \<not> (48 \<le> ?n \<and> ?n \<le> 57 \<or> 97 \<le> ?n \<and> ?n \<le> 102 \<or> 65 \<le> ?n \<and> ?n \<le> 70)"
      by simp
    then have "hex2bin ! ?n > 15 \<longleftrightarrow> \<not> is_hex_digit c"
      by (simp add: is_hex_digit_def char_in_def)
    with True ci f show ?thesis
      by (simp add: hex2bin_at_def length_hex2bin bindF_def)
  next
    case False
    then have "\<not> is_hex_digit c"
      by (auto simp: is_hex_digit_def char_in_def)
    with False ci f show ?thesis by simp
  qed
qed

lemma check_char_ok:
  assumes "i \<le> length s" and "i < 37" and "CHR 0x00 \<notin> set s"
    and "sc \<longrightarrow> (\<forall>c\<in>set s. (of_char c :: nat) < 128)"
  shows "check_char sc s i = Inr (position_ok s i)"
proof -
  define c where "c = (if i < length s then s ! i else CHR 0x00)"
  from assms(1) have d: "deref s i = Inr c"
    by (simp add: deref_def c_def)
  from assms(3) have nz: "i < length s \<Longrightarrow> s ! i \<noteq> CHR 0x00"
    by (metis nth_mem)
  from assms(4) have asc: "sc \<longrightarrow> (of_char c :: nat) < 128"
    by (auto simp: c_def)
  have z: "\<not> is_hex_digit (CHR 0x00)"
    by (simp add: is_hex_digit_def char_in_def)
  consider (dash) "dash_position i" | (last) "i = 36" | (hex) "\<not> dash_position i" "i \<noteq> 36"
    by blast
  then show ?thesis
  proof cases
    case dash
    then have "i \<noteq> 36" by (auto simp: dash_position_def)
    with dash d show ?thesis
      by (auto simp: check_char_def position_ok_def bindF_def dash_position_def c_def)
  next
    case last
    with d assms(1) nz show ?thesis
      by (auto simp: check_char_def position_ok_def bindF_def c_def)
  next
    case hex
    then have "check_char sc s i =
      (if char_to_int sc c > char_to_int sc CHR ''f'' then Inr False
       else bindF (hex2bin_at (char_to_int sc c)) (\<lambda>v. if v > 15 then Inr False else Inr True))"
      using d by (simp add: check_char_def bindF_def dash_position_def)
    also have "\<dots> = Inr (is_hex_digit c)"
      using asc by (rule hex_test)
    also have "is_hex_digit c = position_ok s i"
      using hex z by (simp add: position_ok_def c_def)
    finally show ?thesis .
  qed
qed

lemma check_loop_ok:
  assumes "CHR 0x00 \<notin> set s" and "sc \<longrightarrow> (\<forall>c\<in>set s. (of_char c :: nat) < 128)"
  shows "i \<le> length s \<or> 37 \<le> i \<Longrightarrow>
    check_loop sc s i = Inr (\<forall>j. i \<le> j \<and> j < 37 \<longrightarrow> position_ok s j)"
proof (induction "37 - i" arbitrary: i)
  case 0
  then have "37 \<le> i" by simp
  then show ?case by (subst check_loop.simps) auto
next
  case (Suc n)
  then have lt: "i < 37" and le: "i \<le> length s" by auto
  from check_char_ok [OF le lt assms] have c: "check_char sc s i = Inr (position_ok s i)" .
  show ?case
  proof (cases "position_ok s i")
    case False
    with c lt show ?thesis
      by (subst check_loop.simps) (auto simp: bindF_def)
  next
    case True
    with lt have "i + 1 \<le> length s \<or> 37 \<le> i + 1"
      by (auto simp: position_ok_def split: if_splits)
    moreover from Suc.hyps(2) have "n = 37 - (i + 1)" by simp
    ultimately have "check_loop sc s (i + 1) =
        Inr (\<forall>j. i + 1 \<le> j \<and> j < 37 \<longrightarrow> position_ok s j)"
      using Suc.hyps(1) by blast
    moreover have "(\<forall>j. i + 1 \<le> j \<and> j < 37 \<longrightarrow> position_ok s j) \<longleftrightarrow>
        (\<forall>j. i \<le> j \<and> j < 37 \<longrightarrow> position_ok s j)"
    proof (intro iffI allI impI)
      fix j
      assume a: "\<forall>j. i + 1 \<le> j \<and> j < 37 \<longrightarrow> position_ok s j" and b: "i \<le> j \<and> j < 37"
      from b have "j = i \<or> (i + 1 \<le> j \<and> j < 37)" by arith
      with a True show "position_ok s j" by blast
    next
      fix j
      assume "\<forall>j. i \<le> j \<and> j < 37 \<longrightarrow> position_ok s j" and "i + 1 \<le> j \<and> j < 37"
      then show "position_ok s j" by simp
    qed
    ultimately show ?thesis
      using c lt True by (subst check_loop.simps) (simp add: bindF_def)
  qed
qed

lemma check_loop_canonical:
  assumes "CHR 0x00 \<notin> set s" and "sc \<longrightarrow> (\<forall>c\<in>set s. (of_char c :: nat) < 128)"
  shows "check_loop sc s 0 = Inr (canonical_text s)"
  using check_loop_ok [OF assms, of 0] by (simp add: canonical_text_iff)

lemma canonical_text_ascii:
  assumes "canonical_text s"
  shows "CHR 0x00 \<notin> set s" and "\<forall>c\<in>set s. (of_char c :: nat) < 128"
proof -
  have "c \<noteq> CHR 0x00 \<and> (of_char c :: nat) < 128" if "c \<in> set s" for c
  proof -
    from that obtain i where i: "i < length s" "s ! i = c"
      by (auto simp: in_set_conv_nth)
    with assms have "i < 36" "if dash_position i then c = CHR ''-'' else is_hex_digit c"
      by (auto simp: canonical_text_def)
    then show ?thesis
      by (auto simp: is_hex_digit_def char_in_def split: if_splits)
  qed
  then show "CHR 0x00 \<notin> set s" and "\<forall>c\<in>set s. (of_char c :: nat) < 128" by auto
qed

lemma nat_push_or: "b < 2 ^ n \<Longrightarrow> push_bit n (a::nat) OR b = a * 2 ^ n + b"
proof -
  assume b: "b < 2 ^ n"
  then have tb: "take_bit n b = b" by (simp add: take_bit_nat_eq_self)
  have "push_bit n a + b = push_bit n a OR b"
  proof (rule disjunctive_add_eq_or, rule bit_eqI)
    fix m
    have "\<not> (bit (push_bit n a) m \<and> bit (take_bit n b) m)"
      by (auto simp: bit_push_bit_iff bit_take_bit_iff)
    then show "bit (push_bit n a AND b) m \<longleftrightarrow> bit (0::nat) m"
      by (simp add: tb bit_and_iff)
  qed
  then show ?thesis by (simp add: push_bit_eq_mult)
qed

lemma word_push_or:
  "b < 2 ^ n \<Longrightarrow> push_bit n (of_nat a :: 32 word) OR of_nat b = of_nat (a * 2 ^ n + b)"
proof -
  assume "b < 2 ^ n"
  then have "a * 2 ^ n + b = push_bit n a OR b" by (simp add: nat_push_or)
  then show ?thesis by (simp only: of_nat_or_eq of_nat_push_bit)
qed

lemma ucast_of_nat_32:
  "n < 2 ^ 32 \<Longrightarrow> (ucast (of_nat n :: 32 word) :: 'b::len word) = of_nat n"
  by (simp add: unsigned_of_nat take_bit_nat_eq_self)

lemma ucast_digit: "d < 16 \<Longrightarrow> (ucast (of_nat d :: 8 word) :: 32 word) = of_nat d"
  by (simp add: unsigned_of_nat take_bit_nat_eq_self)

lemma hexval_ok:
  assumes "position_ok s k" and "k < 36" and "\<not> dash_position k"
  shows "hexval sc s k = Inr (of_nat (digit_value (s ! k))) \<and> digit_value (s ! k) < 16"
proof -
  from assms have l: "k < length s" and h: "is_hex_digit (s ! k)"
    by (auto simp: position_ok_def)
  from hex2bin_at_digit [OF h, of sc] l show ?thesis
    by (simp add: hexval_def deref_def bindF_def ucast_digit)
qed

lemma decode_byte_ok:
  assumes "hexval sc s k = Inr (of_nat a)" and "hexval sc s (k + 1) = Inr (of_nat b)"
    and "a < 16" and "b < 16"
  shows "decode_byte sc s k = Inr (of_nat (16 * a + b))"
proof -
  from assms(4) have 1: "push_bit 4 (of_nat a :: 32 word) OR of_nat b = of_nat (a * 2 ^ 4 + b)"
    by (intro word_push_or) simp
  from assms(3,4) have lt: "a * 2 ^ 4 + b < 2 ^ 32" by simp
  have eq: "a * 2 ^ 4 + b = 16 * a + b" by simp
  show ?thesis
    using assms(1,2) lt by (simp only: decode_byte_def bindF_def sum.case 1 ucast_of_nat_32 eq)
qed

lemma decode_short_ok:
  assumes "hexval sc s k = Inr (of_nat a)" and "hexval sc s (k + 1) = Inr (of_nat b)"
    and "hexval sc s (k + 2) = Inr (of_nat c)" and "hexval sc s (k + 3) = Inr (of_nat d)"
    and "a < 16" and "b < 16" and "c < 16" and "d < 16"
  shows "decode_short sc s k = Inr (of_nat (16 * (16 * (16 * a + b) + c) + d))"
proof -
  from assms(7,8) have 1: "push_bit 4 (of_nat c :: 32 word) OR of_nat d = of_nat (c * 2 ^ 4 + d)"
    by (intro word_push_or) simp
  from assms(7,8) have 2: "push_bit 8 (of_nat b :: 32 word) OR of_nat (c * 2 ^ 4 + d) =
      of_nat (b * 2 ^ 8 + (c * 2 ^ 4 + d))"
    by (intro word_push_or) simp
  from assms(6,7,8) have 3: "push_bit 12 (of_nat a :: 32 word) OR of_nat (b * 2 ^ 8 + (c * 2 ^ 4 + d)) =
      of_nat (a * 2 ^ 12 + (b * 2 ^ 8 + (c * 2 ^ 4 + d)))"
    by (intro word_push_or) simp
  from assms(5-8) have lt: "a * 2 ^ 12 + (b * 2 ^ 8 + (c * 2 ^ 4 + d)) < 2 ^ 32" by simp
  have eq: "a * 2 ^ 12 + (b * 2 ^ 8 + (c * 2 ^ 4 + d)) = 16 * (16 * (16 * a + b) + c) + d"
    by simp
  have "push_bit 12 (of_nat a :: 32 word) OR push_bit 8 (of_nat b) OR push_bit 4 (of_nat c) OR
      of_nat d = of_nat (a * 2 ^ 12 + (b * 2 ^ 8 + (c * 2 ^ 4 + d)))"
    by (simp only: 1 2 3)
  then show ?thesis
    using assms(1-4) lt by (simp only: decode_short_def bindF_def sum.case ucast_of_nat_32 eq)
qed


lemma decode_Data1_ok:
  assumes "hexval sc s 0 = Inr (of_nat a)" and "hexval sc s 1 = Inr (of_nat b)"
    and "hexval sc s 2 = Inr (of_nat c)" and "hexval sc s 3 = Inr (of_nat d)"
    and "hexval sc s 4 = Inr (of_nat e)" and "hexval sc s 5 = Inr (of_nat f)"
    and "hexval sc s 6 = Inr (of_nat g)" and "hexval sc s 7 = Inr (of_nat h)"
    and "a < 16" and "b < 16" and "c < 16" and "d < 16"
    and "e < 16" and "f < 16" and "g < 16" and "h < 16"
  shows "decode_Data1 sc s =
    Inr (of_nat (16 * (16 * (16 * (16 * (16 * (16 * (16 * a + b) + c) + d) + e) + f) + g) + h))"
proof -
  let ?n1 = "g * 2 ^ 4 + h"
  let ?n2 = "f * 2 ^ 8 + ?n1"
  let ?n3 = "e * 2 ^ 12 + ?n2"
  let ?n4 = "d * 2 ^ 16 + ?n3"
  let ?n5 = "c * 2 ^ 20 + ?n4"
  let ?n6 = "b * 2 ^ 24 + ?n5"
  let ?n7 = "a * 2 ^ 28 + ?n6"
  from assms(16) have 1: "push_bit 4 (of_nat g :: 32 word) OR of_nat h = of_nat ?n1"
    by (intro word_push_or) simp
  from assms(15,16) have 2: "push_bit 8 (of_nat f :: 32 word) OR of_nat ?n1 = of_nat ?n2"
    by (intro word_push_or) simp
  from assms(14-16) have 3: "push_bit 12 (of_nat e :: 32 word) OR of_nat ?n2 = of_nat ?n3"
    by (intro word_push_or) simp
  from assms(13-16) have 4: "push_bit 16 (of_nat d :: 32 word) OR of_nat ?n3 = of_nat ?n4"
    by (intro word_push_or) simp
  from assms(12-16) have 5: "push_bit 20 (of_nat c :: 32 word) OR of_nat ?n4 = of_nat ?n5"
    by (intro word_push_or) simp
  from assms(11-16) have 6: "push_bit 24 (of_nat b :: 32 word) OR of_nat ?n5 = of_nat ?n6"
    by (intro word_push_or) simp
  from assms(10-16) have 7: "push_bit 28 (of_nat a :: 32 word) OR of_nat ?n6 = of_nat ?n7"
    by (intro word_push_or) simp
  have eq: "?n7 =
      16 * (16 * (16 * (16 * (16 * (16 * (16 * a + b) + c) + d) + e) + f) + g) + h"
    by simp
  have "push_bit 28 (of_nat a :: 32 word) OR push_bit 24 (of_nat b) OR push_bit 20 (of_nat c) OR
      push_bit 16 (of_nat d) OR push_bit 12 (of_nat e) OR push_bit 8 (of_nat f) OR
      push_bit 4 (of_nat g) OR of_nat h = of_nat ?n7"
    by (simp only: 1 2 3 4 5 6 7)
  then show ?thesis
    using assms(1-8) by (simp only: decode_Data1_def bindF_def sum.case eq)
qed

lemma hex_number_2: "hex_number [a, b] = 16 * digit_value a + digit_value b"
  by (simp add: hex_number_def)

lemma hex_number_4:
  "hex_number [a, b, c, d] =
     16 * (16 * (16 * digit_value a + digit_value b) + digit_value c) + digit_value d"
  by (simp add: hex_number_def)

lemma hex_number_8:
  "hex_number [a, b, c, d, e, f, g, h] =
     16 * (16 * (16 * (16 * (16 * (16 * (16 * digit_value a + digit_value b) + digit_value c) +
       digit_value d) + digit_value e) + digit_value f) + digit_value g) + digit_value h"
  by (simp add: hex_number_def)

lemma take_drop_nth:
  "k + n \<le> length s \<Longrightarrow> take n (drop k s) = map ((!) s) [k..<k + n]"
  by (rule nth_equalityI) simp_all


lemma string_to_guid_canonical_text:
  assumes "canonical_text s"
  shows "string_to_guid sc s = Inr (Some (expected_guid s))"
proof -
  from assms have len: "length s = 36" by (simp add: canonical_text_def)
  from assms have ok: "position_ok s i" if "i < 37" for i
    using that by (simp add: canonical_text_iff)
  have chk: "check_loop sc s 0 = Inr True"
    using check_loop_canonical [of s sc] canonical_text_ascii [OF assms] assms by simp
  have hv: "hexval sc s k = Inr (of_nat (digit_value (s ! k)))" "digit_value (s ! k) < 16"
    if "k < 36" "\<not> dash_position k" for k
    using hexval_ok [OF ok [of k] that, of sc] that by simp_all
  have nd: "\<not> dash_position k" if "k \<notin> {8, 13, 18, 23}" for k
    using that by (simp add: dash_position_def)
  have d1: "decode_Data1 sc s = Inr (of_nat (hex_number (take 8 s)))"
  proof -
    have "take 8 (drop 0 s) = map ((!) s) [0..<0 + 8]"
      by (rule take_drop_nth) (simp add: len)
    then have t: "take 8 s = [s ! 0, s ! 1, s ! 2, s ! 3, s ! 4, s ! 5, s ! 6, s ! 7]"
      by (simp add: upt_rec eval_nat_numeral)
    show ?thesis
      unfolding t hex_number_8
      by (rule decode_Data1_ok) (simp_all add: hv nd)
  qed
  have sh: "decode_short sc s k = Inr (of_nat (hex_number (take 4 (drop k s))))"
    if "k = 9 \<or> k = 14" for k
  proof -
    from that have "take 4 (drop k s) = map ((!) s) [k..<k + 4]"
      by (intro take_drop_nth) (auto simp: len)
    then have t: "take 4 (drop k s) = [s ! k, s ! (k + 1), s ! (k + 2), s ! (k + 3)]"
      by (simp add: upt_rec eval_nat_numeral)
    show ?thesis
      unfolding t hex_number_4
      using that by (intro decode_short_ok) (auto simp: hv nd)
  qed
  have bt: "decode_byte sc s k = Inr (of_nat (hex_number (take 2 (drop k s))))"
    if "k \<in> {19, 21, 24, 26, 28, 30, 32, 34}" for k
  proof -
    from that have "take 2 (drop k s) = map ((!) s) [k..<k + 2]"
      by (intro take_drop_nth) (auto simp: len)
    then have t: "take 2 (drop k s) = [s ! k, s ! (k + 1)]"
      by (simp add: upt_rec eval_nat_numeral)
    show ?thesis
      unfolding t hex_number_2
      using that by (intro decode_byte_ok) (auto simp: hv nd)
  qed
  show ?thesis
    by (simp add: string_to_guid_def chk d1 sh bt bindF_def expected_guid_def)
qed

lemma string_to_guid_total:
  assumes "CHR 0x00 \<notin> set s" and "sc \<longrightarrow> (\<forall>c\<in>set s. (of_char c :: nat) < 128)"
  shows "string_to_guid sc s = Inr (if canonical_text s then Some (expected_guid s) else None)"
proof (cases "canonical_text s")
  case True
  then show ?thesis by (simp add: string_to_guid_canonical_text)
next
  case False
  with check_loop_canonical [OF assms] show ?thesis
    by (simp add: string_to_guid_def bindF_def)
qed

lemma string_to_guid_ref_total:
  assumes "CHR 0x00 \<notin> set s" and "sc \<longrightarrow> (\<forall>c\<in>set s. (of_char c :: nat) < 128)"
  shows "string_to_guid_ref sc s ident =
    Inr (if canonical_text s then (True, expected_guid s) else (False, ident))"
  by (simp add: string_to_guid_ref_def string_to_guid_total [OF assms] bindF_def)

text \<open>
  Claim C5. For every canonical text, and whether or not \<^verbatim>\<open>char\<close> is signed,
  \<^verbatim>\<open>string_to_guid\<close> succeeds with the identifier whose fields are the big-endian
  values of the digit groups: the first 8 digits in \<open>Data1\<close>, the next 4 in \<open>Data2\<close>,
  the next 4 in \<open>Data3\<close>, the following 4 and the last 12 as the 8 byte pairs of
  \<open>Data4\<close>. In particular the text of \<^verbatim>\<open>IUnknown\<close> gives 0, 0, 0 and the bytes
  \<open>C0 00 00 00 00 00 00 46\<close>.
\<close>

theorem string_to_guid_canonical:
  "(canonical_text s \<longrightarrow> string_to_guid sc s = Inr (Some (expected_guid s))) \<and>
   string_to_guid sc ''00000000-0000-0000-C000-000000000046'' =
     Inr (Some \<lparr>Data1 = 0, Data2 = 0, Data3 = 0, Data4 = [0xC0, 0, 0, 0, 0, 0, 0, 0x46]\<rparr>)"
proof
  show "canonical_text s \<longrightarrow> string_to_guid sc s = Inr (Some (expected_guid s))"
    by (simp add: string_to_guid_canonical_text)
  from guid_of_IUnknown [of sc]
  show "string_to_guid sc ''00000000-0000-0000-C000-000000000046'' =
     Inr (Some \<lparr>Data1 = 0, Data2 = 0, Data3 = 0, Data4 = [0xC0, 0, 0, 0, 0, 0, 0, 0x46]\<rparr>)"
    by (simp add: guid_of_def IUnknown_def PI_IUNKNOWN_IID_def IID_IUnknown_def
        split: sum.splits option.splits)
qed

theorem string_to_guid_canonical_witness:
  "canonical_text ''0123abCD-4567-89ef-C0f0-0123456789aB'' \<and>
   string_to_guid True ''0123abCD-4567-89ef-C0f0-0123456789aB'' =
     Inr (Some \<lparr>Data1 = 0x0123abcd, Data2 = 0x4567, Data3 = 0x89ef,
       Data4 = [0xc0, 0xf0, 0x01, 0x23, 0x45, 0x67, 0x89, 0xab]\<rparr>)"
proof -
  have c: "canonical_text ''0123abCD-4567-89ef-C0f0-0123456789aB''"
    by (simp add: canonical_text_def dash_position_def is_hex_digit_def char_in_def
        All_less_Suc numeral_eq_Suc)
  have e: "expected_guid ''0123abCD-4567-89ef-C0f0-0123456789aB'' =
      \<lparr>Data1 = 0x0123abcd, Data2 = 0x4567, Data3 = 0x89ef,
       Data4 = [0xc0, 0xf0, 0x01, 0x23, 0x45, 0x67, 0x89, 0xab]\<rparr>"
    by (simp add: expected_guid_def hex_number_def digit_value_def char_in_def)
  from string_to_guid_canonical [of "''0123abCD-4567-89ef-C0f0-0123456789aB''" True] c e
  show ?thesis by simp
qed

text \<open>
  Claim C6 fails on the code where plain \<^verbatim>\<open>char\<close> is signed: a text of 36 characters
  whose last character is the byte \<open>0xFF\<close> is not rejected. The byte is the
  \<^verbatim>\<open>char\<close> \<open>-1\<close>, it passes the test \<^verbatim>\<open>s[i] > 'f'\<close>, and \<^verbatim>\<open>hex2bin[s[i]]\<close> reads
  in front of the table. (For texts of 7-bit characters, and where \<^verbatim>\<open>char\<close> is unsigned,
  every text that is not canonical is rejected: lemma \<open>string_to_guid_total\<close>.)
\<close>

theorem string_to_guid_high_byte_not_rejected:
  "string_to_guid True (''00000000-0000-0000-C000-00000000004'' @ [CHR 0xFF]) = Inl TableOverrun"
  by code_simp

text \<open>
  Claim C10 fails on the code where plain \<^verbatim>\<open>char\<close> is signed: for the text that
  consists of the byte \<open>0x80\<close> the index into \<^verbatim>\<open>hex2bin\<close> is \<open>-128\<close>, outside the
  table.
\<close>

theorem hex2bin_negative_index:
  "char_to_int True (CHR 0x80) = - 128 \<and> hex2bin_at (- 128) = Inl TableOverrun \<and>
   check_char True [CHR 0x80] 0 = Inl TableOverrun \<and>
   string_to_guid True [CHR 0x80] = Inl TableOverrun"
  by code_simp

end
